theory Spec2Isabelle
  imports Main "HOL-Library.Word" "HOL-Library.Char_ord" "HOL-Library.List_Lexorder"
    "HOL-Library.Multiset"
begin

unbundle bit_operations_syntax

section \<open>Shared data model of the query handler\<close>

text \<open>
  Errors of \<^verbatim>\<open>server/handler.go\<close>.  The three named kinds are the package-level
  error kinds of the handler; \<open>ErrExternal\<close> stands for any error produced by a
  collaborator (parser, engine, session, strconv, type conversion), tagged by a message.
\<close>

datatype error =
    ErrRowTimeout
  | ErrConnectionWasClosed
  | ErrUnsupportedOperation
  | ErrExternal string

text \<open>The transport behind a connection (\<^verbatim>\<open>net.Conn\<close>): a TCP connection, a
  \<^verbatim>\<open>netutil.ConnWithTimeouts\<close> wrapper around another transport, or anything else.\<close>

datatype net_conn =
    TCPConn nat
  | ConnWithTimeouts net_conn
  | OtherConn

text \<open>\<^verbatim>\<open>mysql.Conn\<close>, with the fields the handler reads or writes.\<close>

record conn =
  ConnectionID :: "32 word"
  StatusFlags :: "16 word"
  DisableClientMultiStatements :: bool
  Conn :: net_conn

text \<open>Values held by session variables and row cells (\<^verbatim>\<open>interface{}\<close>).\<close>

record ok_result =
  ok_RowsAffected :: "64 word"
  ok_InsertID :: "64 word"
  ok_Info :: "string option"

type_synonym float64 = "64 word" \<comment> \<open>the IEEE-754 bit pattern; never computed with\<close>

datatype val =
    NullV
  | IntV int
  | UintV nat
  | FloatV float64
  | StrV string
  | BytesV string
  | BoolV bool
  | OkV ok_result

section \<open>Status flags\<close>

text \<open>
  The part of \<^verbatim>\<open>sql.Context\<close> that \<^verbatim>\<open>setConnStatusFlags\<close> consults:
  the session-variable lookup, the conversion \<^verbatim>\<open>types.ConvertToBool\<close> and the
  current transaction (\<open>None\<close> is Go's nil).
\<close>

record sql_context =
  GetSessionVariable :: "string \<Rightarrow> error + val"
  ConvertToBool :: "val \<Rightarrow> error + bool"
  GetTransaction :: "nat option"

text \<open>The two status bits, as in the MySQL protocol (the page the source cites):
  \<^verbatim>\<open>SERVER_STATUS_IN_TRANS = 0x0001\<close>, \<^verbatim>\<open>SERVER_STATUS_AUTOCOMMIT = 0x0002\<close>.\<close>

definition ServerInTransaction :: "16 word" where
  "ServerInTransaction = 0x0001"

definition ServerStatusAutocommit :: "16 word" where
  "ServerStatusAutocommit = 0x0002"

definition AutoCommitSessionVar :: string where
  "AutoCommitSessionVar = ''autocommit''"

definition isSessionAutocommit :: "sql_context \<Rightarrow> error + bool" where
  "isSessionAutocommit ctx =
     (case GetSessionVariable ctx AutoCommitSessionVar of
        Inl err \<Rightarrow> Inl err
      | Inr autoCommitSessionVar \<Rightarrow> ConvertToBool ctx autoCommitSessionVar)"

definition setConnStatusFlags :: "sql_context \<Rightarrow> conn \<Rightarrow> error + conn" where
  "setConnStatusFlags ctx c =
     (case isSessionAutocommit ctx of
        Inl err \<Rightarrow> Inl err
      | Inr ok \<Rightarrow>
          let c1 = (if ok
                    then c\<lparr>StatusFlags := StatusFlags c OR ServerStatusAutocommit\<rparr>
                    else c\<lparr>StatusFlags := StatusFlags c AND NOT ServerStatusAutocommit\<rparr>);
              c2 = (if GetTransaction ctx \<noteq> None
                    then c1\<lparr>StatusFlags := StatusFlags c1 OR ServerInTransaction\<rparr>
                    else c1\<lparr>StatusFlags := StatusFlags c1 AND NOT ServerInTransaction\<rparr>)
          in Inr c2)"

text \<open>A session used in the examples: autocommit is the integer 1, truthy by the
  conversion, and a transaction is open.\<close>

definition demo_context :: sql_context where
  "demo_context =
     \<lparr>GetSessionVariable = (\<lambda>name. if name = ''autocommit'' then Inr (IntV 1)
                                   else Inl (ErrExternal ''unknown system variable'')),
      ConvertToBool = (\<lambda>v. case v of IntV i \<Rightarrow> Inr (i \<noteq> 0) | BoolV b \<Rightarrow> Inr b
                               | _ \<Rightarrow> Inl (ErrExternal ''invalid type'')),
      GetTransaction = Some 7\<rparr>"

definition demo_conn :: conn where
  "demo_conn = \<lparr>ConnectionID = 1, StatusFlags = 0x4008,
                DisableClientMultiStatements = False, Conn = TCPConn 3306\<rparr>"

section \<open>Bind-variable coercion\<close>

text \<open>The wire types of \<^verbatim>\<open>query.Type\<close> (written \<^verbatim>\<open>sqltypes.Year\<close> and so on
  in the source).\<close>

datatype wire_type =
    sqltypes_Null | sqltypes_Int8 | sqltypes_Uint8 | sqltypes_Int16 | sqltypes_Uint16
  | sqltypes_Int24 | sqltypes_Uint24 | sqltypes_Int32 | sqltypes_Uint32
  | sqltypes_Int64 | sqltypes_Uint64 | sqltypes_Float32 | sqltypes_Float64
  | sqltypes_Timestamp | sqltypes_Date | sqltypes_Time | sqltypes_Datetime
  | sqltypes_Year | sqltypes_Decimal | sqltypes_Text | sqltypes_Blob
  | sqltypes_VarChar | sqltypes_VarBinary | sqltypes_Char | sqltypes_Binary
  | sqltypes_Bit | sqltypes_Enum | sqltypes_Set | sqltypes_Tuple
  | sqltypes_Geometry | sqltypes_TypeJSON | sqltypes_Expression

text \<open>\<^verbatim>\<open>query.BindVariable\<close>: a type tag and raw bytes.\<close>

record bind_variable =
  bv_Type :: wire_type
  bv_Value :: string

text \<open>\<^verbatim>\<open>sqltypes.Value\<close>, as \<^verbatim>\<open>sqltypes.NewValue\<close> returns it; \<open>Type()\<close>
  and \<open>ToBytes()\<close> read its two fields.\<close>

record sql_value =
  vtyp :: wire_type
  vval :: string

text \<open>The engine types of package \<^verbatim>\<open>types\<close> that the handler and the plan nodes
  name.  The three \<open>Created\<dots>\<close> constructors are only used by example environments, as
  the results of the type constructors \<^verbatim>\<open>CreateBinary\<close>,
  \<^verbatim>\<open>CreateStringWithDefaults\<close> and \<^verbatim>\<open>CreateDatetimeType\<close>.\<close>

datatype sql_type =
    types_Year | types_Int64 | types_Uint64 | types_Float64
  | types_InternalDecimalType | MustCreateBitType nat | types_Null | types_Time
  | types_LongText | types_Text | types_Datetime
  | CreatedBinary wire_type int | CreatedString wire_type int | CreatedDatetime wire_type

text \<open>\<^verbatim>\<open>expression.NewLiteral(value, type)\<close>.\<close>

record literal =
  lit_value :: val
  lit_type :: sql_type

text \<open>
  The functions of other packages that \<^verbatim>\<open>bindingsToExprs\<close> calls (vitess
  \<^verbatim>\<open>sqltypes\<close>, Go's \<^verbatim>\<open>strconv\<close>, the engine's \<^verbatim>\<open>types\<close>) are parameters
  of the model.  \<open>ParseInt s base bits\<close> and \<open>ParseUint s base bits\<close> take the base and
  the bit size the source passes; \<open>Convert t v\<close> is the method \<^verbatim>\<open>t.Convert(v)\<close>.
\<close>

record bind_env =
  NewValue :: "wire_type \<Rightarrow> string \<Rightarrow> error + sql_value"
  IsSigned :: "wire_type \<Rightarrow> bool"
  IsUnsigned :: "wire_type \<Rightarrow> bool"
  IsFloat :: "wire_type \<Rightarrow> bool"
  ParseInt :: "string \<Rightarrow> nat \<Rightarrow> nat \<Rightarrow> error + int"
  ParseUint :: "string \<Rightarrow> nat \<Rightarrow> nat \<Rightarrow> error + nat"
  ParseFloat :: "string \<Rightarrow> nat \<Rightarrow> error + float64"
  Convert :: "sql_type \<Rightarrow> val \<Rightarrow> error + val"
  CreateBinary :: "wire_type \<Rightarrow> int \<Rightarrow> error + sql_type"
  CreateStringWithDefaults :: "wire_type \<Rightarrow> int \<Rightarrow> error + sql_type"
  CreateDatetimeType :: "wire_type \<Rightarrow> error + sql_type"
  BitTypeMaxBits :: nat

text \<open>\<open>t.Convert(x)\<close> followed by \<open>NewLiteral(c, t)\<close>, the tail of most branches.\<close>

definition convert_literal :: "bind_env \<Rightarrow> sql_type \<Rightarrow> val \<Rightarrow> error + literal" where
  "convert_literal env t x =
     (case Convert env t x of
        Inl err \<Rightarrow> Inl err
      | Inr c \<Rightarrow> Inr \<lparr>lit_value = c, lit_type = t\<rparr>)"

text \<open>The body of the loop of \<^verbatim>\<open>bindingsToExprs\<close>: the literal stored under the
  name, or the error the function returns.  The \<open>switch\<close> is a chain of
  conditions tried in the order of the source.\<close>

definition bindingsToExprs_body :: "bind_env \<Rightarrow> bind_variable \<Rightarrow> error + literal" where
  "bindingsToExprs_body env b =
     (case NewValue env (bv_Type b) (bv_Value b) of
        Inl err \<Rightarrow> Inl err
      | Inr v \<Rightarrow>
          if vtyp v = sqltypes_Year then
            convert_literal env types_Year (StrV (vval v))
          else if IsSigned env (vtyp v) then
            (case ParseInt env (vval v) 0 64 of
               Inl err \<Rightarrow> Inl err
             | Inr i \<Rightarrow> convert_literal env types_Int64 (IntV i))
          else if IsUnsigned env (vtyp v) then
            (case ParseUint env (vval v) 0 64 of
               Inl err \<Rightarrow> Inl err
             | Inr u \<Rightarrow> convert_literal env types_Uint64 (UintV u))
          else if IsFloat env (vtyp v) then
            (case ParseFloat env (vval v) 64 of
               Inl err \<Rightarrow> Inl err
             | Inr f \<Rightarrow> convert_literal env types_Float64 (FloatV f))
          else if vtyp v = sqltypes_Decimal then
            convert_literal env types_InternalDecimalType (StrV (vval v))
          else if vtyp v = sqltypes_Bit then
            convert_literal env (MustCreateBitType (BitTypeMaxBits env)) (BytesV (vval v))
          else if vtyp v = sqltypes_Null then
            Inr \<lparr>lit_value = NullV, lit_type = types_Null\<rparr>
          else if vtyp v = sqltypes_Blob \<or> vtyp v = sqltypes_VarBinary
                  \<or> vtyp v = sqltypes_Binary then
            (case CreateBinary env (vtyp v) (int (length (vval v))) of
               Inl err \<Rightarrow> Inl err
             | Inr t \<Rightarrow> convert_literal env t (BytesV (vval v)))
          else if vtyp v = sqltypes_Text \<or> vtyp v = sqltypes_VarChar
                  \<or> vtyp v = sqltypes_Char then
            (case CreateStringWithDefaults env (vtyp v) (int (length (vval v))) of
               Inl err \<Rightarrow> Inl err
             | Inr t \<Rightarrow> convert_literal env t (BytesV (vval v)))
          else if vtyp v = sqltypes_Date \<or> vtyp v = sqltypes_Datetime
                  \<or> vtyp v = sqltypes_Timestamp then
            (case CreateDatetimeType env (vtyp v) of
               Inl err \<Rightarrow> Inl err
             | Inr t \<Rightarrow> convert_literal env t (StrV (vval v)))
          else if vtyp v = sqltypes_Time then
            convert_literal env types_Time (StrV (vval v))
          else Inl ErrUnsupportedOperation)"

text \<open>
  The loop \<^verbatim>\<open>for k, v := range bindings\<close>.  A Go map has distinct keys and is visited
  in an unspecified order: the bindings are an association list in the order of the
  visit, \<open>res\<close> is the map built so far, and the first error ends the loop.
\<close>

fun bindingsToExprs_loop ::
  "bind_env \<Rightarrow> (string \<times> bind_variable) list \<Rightarrow> (string \<rightharpoonup> literal)
     \<Rightarrow> error + (string \<rightharpoonup> literal)" where
  "bindingsToExprs_loop env [] res = Inr res"
| "bindingsToExprs_loop env ((k, v) # rest) res =
     (case bindingsToExprs_body env v of
        Inl err \<Rightarrow> Inl err
      | Inr e \<Rightarrow> bindingsToExprs_loop env rest (res(k \<mapsto> e)))"

definition bindingsToExprs ::
  "bind_env \<Rightarrow> (string \<times> bind_variable) list \<Rightarrow> error + (string \<rightharpoonup> literal)" where
  "bindingsToExprs env bindings = bindingsToExprs_loop env bindings Map.empty"

subsection \<open>The coercion table of the specification\<close>

text \<open>
  The table of section 4.A, row by row: the wire types a row covers, what the bytes
  are parsed as, and the type of the literal.  A row that parses or creates a type may
  fail; the failure is the result.
\<close>

datatype parsed_as =
    AsString | AsBase0Int64 | AsBase0Uint64 | AsFloat64 | AsRawBytes | AsNothing

datatype tabulated_type =
    FixedType sql_type | BinaryOfLength | StringOfLengthWithDefaults | DatetimeOfSubtype

definition coercion_table ::
  "bind_env \<Rightarrow> ((wire_type \<Rightarrow> bool) \<times> parsed_as \<times> tabulated_type) list" where
  "coercion_table env =
     [((\<lambda>t. t = sqltypes_Year), AsString, FixedType types_Year),
      (IsSigned env, AsBase0Int64, FixedType types_Int64),
      (IsUnsigned env, AsBase0Uint64, FixedType types_Uint64),
      (IsFloat env, AsFloat64, FixedType types_Float64),
      ((\<lambda>t. t = sqltypes_Decimal), AsString, FixedType types_InternalDecimalType),
      ((\<lambda>t. t = sqltypes_Bit), AsRawBytes, FixedType (MustCreateBitType (BitTypeMaxBits env))),
      ((\<lambda>t. t = sqltypes_Null), AsNothing, FixedType types_Null),
      ((\<lambda>t. t \<in> {sqltypes_Blob, sqltypes_VarBinary, sqltypes_Binary}), AsRawBytes, BinaryOfLength),
      ((\<lambda>t. t \<in> {sqltypes_Text, sqltypes_VarChar, sqltypes_Char}), AsRawBytes,
         StringOfLengthWithDefaults),
      ((\<lambda>t. t \<in> {sqltypes_Date, sqltypes_Datetime, sqltypes_Timestamp}), AsString,
         DatetimeOfSubtype),
      ((\<lambda>t. t = sqltypes_Time), AsString, FixedType types_Time)]"

definition parse_as :: "bind_env \<Rightarrow> parsed_as \<Rightarrow> string \<Rightarrow> error + val" where
  "parse_as env p bs =
     (case p of
        AsString \<Rightarrow> Inr (StrV bs)
      | AsRawBytes \<Rightarrow> Inr (BytesV bs)
      | AsNothing \<Rightarrow> Inr NullV
      | AsBase0Int64 \<Rightarrow> map_sum id IntV (ParseInt env bs 0 64)
      | AsBase0Uint64 \<Rightarrow> map_sum id UintV (ParseUint env bs 0 64)
      | AsFloat64 \<Rightarrow> map_sum id FloatV (ParseFloat env bs 64))"

definition type_of_row :: "bind_env \<Rightarrow> tabulated_type \<Rightarrow> sql_value \<Rightarrow> error + sql_type" where
  "type_of_row env tt v =
     (case tt of
        FixedType t \<Rightarrow> Inr t
      | BinaryOfLength \<Rightarrow> CreateBinary env (vtyp v) (int (length (vval v)))
      | StringOfLengthWithDefaults \<Rightarrow>
          CreateStringWithDefaults env (vtyp v) (int (length (vval v)))
      | DatetimeOfSubtype \<Rightarrow> CreateDatetimeType env (vtyp v))"

text \<open>One row applied to a wire value: create the type, parse the bytes, convert;
  the Null row needs no conversion.  A failure of any of the three is the result.\<close>

definition apply_row :: "bind_env \<Rightarrow> parsed_as \<Rightarrow> tabulated_type \<Rightarrow> sql_value \<Rightarrow> error + literal" where
  "apply_row env p tt v =
     (case type_of_row env tt v of
        Inl err \<Rightarrow> Inl err
      | Inr t \<Rightarrow>
          (case parse_as env p (vval v) of
             Inl err \<Rightarrow> Inl err
           | Inr x \<Rightarrow>
               if p = AsNothing then Inr \<lparr>lit_value = NullV, lit_type = t\<rparr>
               else (case Convert env t x of
                       Inl err \<Rightarrow> Inl err
                     | Inr c \<Rightarrow> Inr \<lparr>lit_value = c, lit_type = t\<rparr>)))"

text \<open>The literal the table prescribes for a wire value: the first row that covers its
  type; no row is the UnsupportedOperation error.\<close>

definition tabulated_literal :: "bind_env \<Rightarrow> sql_value \<Rightarrow> error + literal" where
  "tabulated_literal env v =
     (case find (\<lambda>(covers, _). covers (vtyp v)) (coercion_table env) of
        None \<Rightarrow> Inl ErrUnsupportedOperation
      | Some (_, p, tt) \<Rightarrow> apply_row env p tt v)"

text \<open>The row of the table for a wire type: what it is parsed as and the tabulated
  type, from the first row that covers it.\<close>

definition table_row :: "bind_env \<Rightarrow> wire_type \<Rightarrow> (parsed_as \<times> tabulated_type) option" where
  "table_row env t = map_option snd (find (\<lambda>(covers, _). covers t) (coercion_table env))"

definition listed_in_table :: "bind_env \<Rightarrow> wire_type \<Rightarrow> bool" where
  "listed_in_table env t = list_ex (\<lambda>(covers, _). covers t) (coercion_table env)"

text \<open>An example environment and the bindings of scenario S4, with one parser entry
  per example value.\<close>

definition demo_bind_env :: bind_env where
  "demo_bind_env =
     \<lparr>NewValue = (\<lambda>t bs. if t = sqltypes_Tuple \<or> t = sqltypes_Expression
                          then Inl (ErrExternal ''invalid type specified for MakeValue'')
                          else Inr \<lparr>vtyp = t, vval = bs\<rparr>),
      IsSigned = (\<lambda>t. t \<in> {sqltypes_Int8, sqltypes_Int16, sqltypes_Int24, sqltypes_Int32,
                             sqltypes_Int64}),
      IsUnsigned = (\<lambda>t. t \<in> {sqltypes_Uint8, sqltypes_Uint16, sqltypes_Uint24,
                               sqltypes_Uint32, sqltypes_Uint64, sqltypes_Year}),
      IsFloat = (\<lambda>t. t \<in> {sqltypes_Float32, sqltypes_Float64}),
      ParseInt = (\<lambda>s base bits. if s = ''42'' then Inr 42
                                  else Inl (ErrExternal ''strconv.ParseInt: invalid syntax'')),
      ParseUint = (\<lambda>s base bits. if s = ''42'' then Inr 42
                                   else Inl (ErrExternal ''strconv.ParseUint: invalid syntax'')),
      ParseFloat = (\<lambda>s bits. Inl (ErrExternal ''strconv.ParseFloat: invalid syntax'')),
      Convert = (\<lambda>t x. case (t, x) of
                          (CreatedString _ _, BytesV bs) \<Rightarrow> Inr (StrV bs)
                        | _ \<Rightarrow> Inr x),
      CreateBinary = (\<lambda>t n. Inr (CreatedBinary t n)),
      CreateStringWithDefaults = (\<lambda>t n. Inr (CreatedString t n)),
      CreateDatetimeType = (\<lambda>t. Inr (CreatedDatetime t)),
      BitTypeMaxBits = 64\<rparr>"

definition demo_bindings :: "(string \<times> bind_variable) list" where
  "demo_bindings =
     [(''a'', \<lparr>bv_Type = sqltypes_Int32, bv_Value = ''42''\<rparr>),
      (''b'', \<lparr>bv_Type = sqltypes_VarChar, bv_Value = ''hi''\<rparr>)]"

section \<open>Socket liveness poller\<close>

text \<open>What a goroutine does under a given schedule of the events it waits for: it
  returns a value, it blocks for ever (or for as long as the schedule says nothing
  more), or it panics.\<close>

datatype 'a outcome = Returns 'a | Blocks | Panics string

text \<open>\<^verbatim>\<open>time.Duration\<close> counts nanoseconds.\<close>

type_synonym duration = int

definition Second :: duration where
  "Second = 1000000000"

definition Minute :: duration where
  "Minute = 60 * Second"

definition tcpCheckerSleepDuration :: duration where
  "tcpCheckerSleepDuration = 1 * Second"

datatype SockState =
    sockstate_Broken | sockstate_Error | sockstate_Established | sockstate_Other

text \<open>The operating system as the poller sees it: \<^verbatim>\<open>sockstate.GetConnInode\<close> on a TCP
  connection (inode and error), and the local port when the local address of the
  connection is a \<^verbatim>\<open>*net.TCPAddr\<close>.\<close>

record sock_env =
  GetConnInode :: "nat \<Rightarrow> 64 word \<times> error option"
  LocalAddr :: "nat \<Rightarrow> int option"

text \<open>One round of the poller's loop: the \<open>select\<close> either sees the context done, or
  the timer fire, and then \<^verbatim>\<open>sockstate.GetInodeSockState\<close> answers with a state
  and an error.\<close>

datatype poll_step = PollDone | PollTick SockState "error option"

definition maybeGetTCPConn :: "net_conn \<Rightarrow> nat option" where
  "maybeGetTCPConn conn =
     (let conn1 = (case conn of ConnWithTimeouts wrapped \<Rightarrow> wrapped | _ \<Rightarrow> conn)
      in case conn1 of TCPConn tcp \<Rightarrow> Some tcp | _ \<Rightarrow> None)"

text \<open>The loop.  \<open>timers\<close> lists the durations the timer has been armed with so far
  (\<^verbatim>\<open>NewTimer\<close>, then one \<^verbatim>\<open>Reset\<close> per round that goes on).\<close>

fun pollLoop :: "poll_step list \<Rightarrow> duration list \<Rightarrow> error option outcome \<times> duration list" where
  "pollLoop [] timers = (Blocks, timers)"
| "pollLoop (PollDone # rest) timers = (Returns None, timers)"
| "pollLoop (PollTick st err # rest) timers =
     (case st of
        sockstate_Broken \<Rightarrow> (Returns (Some ErrConnectionWasClosed), timers)
      | sockstate_Error \<Rightarrow> (Returns None, timers)
      | _ \<Rightarrow> pollLoop rest (timers @ [tcpCheckerSleepDuration]))"

definition pollForClosedConnection ::
  "sock_env \<Rightarrow> conn \<Rightarrow> poll_step list \<Rightarrow> error option outcome \<times> duration list" where
  "pollForClosedConnection env c steps =
     (case maybeGetTCPConn (Conn c) of
        None \<Rightarrow> (Returns None, [])
      | Some tcpConn \<Rightarrow>
          (case GetConnInode env tcpConn of
             (inode, err) \<Rightarrow>
               if err \<noteq> None \<or> inode = 0 then (Returns None, [])
               else (case LocalAddr env tcpConn of
                       None \<Rightarrow> (Returns None, [])
                     | Some port \<Rightarrow> pollLoop steps [tcpCheckerSleepDuration])))"

text \<open>A round that lets the loop go on: the timer fired and the state is neither Broken
  nor Error.\<close>

fun goes_on :: "poll_step \<Rightarrow> bool" where
  "goes_on PollDone = False"
| "goes_on (PollTick st err) = (st \<noteq> sockstate_Broken \<and> st \<noteq> sockstate_Error)"

definition demo_sock_env :: sock_env where
  "demo_sock_env = \<lparr>GetConnInode = (\<lambda>tcp. (4711, None)), LocalAddr = (\<lambda>tcp. Some 3306)\<rparr>"

section \<open>The process-list query\<close>

text \<open>\<^verbatim>\<open>sql.Column\<close> with the fields the schema literals set; a field a literal
  leaves out has Go's zero value.\<close>

record column =
  Name :: string
  Type :: sql_type
  Nullable :: bool

type_synonym schema = "column list"
type_synonym row = "val list"

definition processListSchema :: schema where
  "processListSchema =
     [\<lparr>Name = ''Id'', Type = types_Int64, Nullable = False\<rparr>,
      \<lparr>Name = ''User'', Type = types_LongText, Nullable = False\<rparr>,
      \<lparr>Name = ''Host'', Type = types_LongText, Nullable = False\<rparr>,
      \<lparr>Name = ''db'', Type = types_LongText, Nullable = False\<rparr>,
      \<lparr>Name = ''Command'', Type = types_LongText, Nullable = False\<rparr>,
      \<lparr>Name = ''Time'', Type = types_Int64, Nullable = False\<rparr>,
      \<lparr>Name = ''State'', Type = types_LongText, Nullable = False\<rparr>,
      \<lparr>Name = ''Info'', Type = types_LongText, Nullable = False\<rparr>]"

text \<open>The struct \<open>process\<close> of the plan package and its \<open>toRow\<close>.\<close>

record process =
  pr_id :: int
  pr_user :: string
  pr_host :: string
  pr_db :: string
  pr_command :: string
  pr_time :: int
  pr_state :: string
  pr_info :: string

definition toRow :: "process \<Rightarrow> row" where
  "toRow p =
     (let db_cell = (if pr_db p \<noteq> [] then StrV (pr_db p) else NullV)
      in [IntV (pr_id p), StrV (pr_user p), StrV (pr_host p), db_cell, StrV (pr_command p),
          IntV (pr_time p), StrV (pr_state p), StrV (pr_info p)])"

text \<open>
  \<^verbatim>\<open>sql.Process\<close> as \<^verbatim>\<open>ProcessList.Processes()\<close> returns it.  The two maps
  (progress by name, partition progress by partition name) are association lists in the
  order a \<open>range\<close> visits them; \<open>Seconds\<close> is the value of the method of that name at
  the time of the snapshot.
\<close>

record progress =
  p_Name :: string
  p_Done :: int
  p_Total :: int

record table_progress =
  tp_Progress :: progress
  PartitionsProgress :: "(string \<times> progress) list"

record sql_process =
  Connection :: "32 word"
  User :: string
  Host :: string
  Database :: string
  Command :: string
  Query :: string
  Progress :: "(string \<times> table_progress) list"
  Seconds :: "64 word"

definition ProcessCommandQuery :: string where
  "ProcessCommandQuery = ''Query''"

text \<open>The printing functions of package \<open>sql\<close> are parameters: the \<open>String\<close> method
  of a progress report, and a fresh \<^verbatim>\<open>TreePrinter\<close> given a node and children
  (\<open>WriteNode\<close>, \<open>WriteChildren\<close>, \<open>String\<close>).\<close>

record print_env =
  Progress_String :: "progress \<Rightarrow> string"
  TreePrint :: "string \<Rightarrow> string list \<Rightarrow> string"

text \<open>\<^verbatim>\<open>sort.Strings\<close>: ascending, bytes compared lexicographically.\<close>

definition sort_Strings :: "string list \<Rightarrow> string list" where
  "sort_Strings xs = sort xs"

text \<open>A map read at a key it does not hold gives the zero value.\<close>

definition zero_table_progress :: table_progress where
  "zero_table_progress =
     \<lparr>tp_Progress = \<lparr>p_Name = [], p_Done = 0, p_Total = 0\<rparr>, PartitionsProgress = []\<rparr>"

definition lookup_progress :: "(string \<times> table_progress) list \<Rightarrow> string \<Rightarrow> table_progress" where
  "lookup_progress m name = (case map_of m name of Some tp \<Rightarrow> tp | None \<Rightarrow> zero_table_progress)"

text \<open>The body of the inner loop of \<^verbatim>\<open>RowIter\<close>: one printed progress report.\<close>

definition print_progress :: "print_env \<Rightarrow> table_progress \<Rightarrow> string" where
  "print_progress env progress =
     (let children = sort_Strings (map (\<lambda>(_, partitionProgress). Progress_String env partitionProgress)
                                       (PartitionsProgress progress))
      in TreePrint env ([CHR 0x0A] @ Progress_String env (tp_Progress progress)) children)"

definition process_status :: "print_env \<Rightarrow> sql_process \<Rightarrow> string list" where
  "process_status env proc =
     (let names = sort_Strings (map fst (Progress proc));
          status = map (\<lambda>name. print_progress env (lookup_progress (Progress proc) name)) names
      in if length status = 0 \<and> Command proc = ProcessCommandQuery then [''running'']
         else status)"

definition process_row :: "print_env \<Rightarrow> sql_process \<Rightarrow> row" where
  "process_row env proc =
     toRow \<lparr>pr_id = uint (Connection proc),
            pr_user = User proc,
            pr_host = Host proc,
            pr_db = Database proc,
            pr_command = Command proc,
            pr_time = sint (Seconds proc),
            pr_state = concat (process_status env proc),
            pr_info = Query proc\<rparr>"

definition ShowProcessList_RowIter :: "print_env \<Rightarrow> sql_process list \<Rightarrow> row list" where
  "ShowProcessList_RowIter env processes = map (process_row env) processes"

text \<open>The State cell as the specification words it: "running" for a Query without
  progress entries, else the printed reports joined in the order of the sorted progress
  names.\<close>

definition rendered_state :: "print_env \<Rightarrow> sql_process \<Rightarrow> string" where
  "rendered_state env proc =
     (if Progress proc = [] \<and> Command proc = ''Query'' then ''running''
      else concat (map (\<lambda>name. print_progress env (lookup_progress (Progress proc) name))
                       (sorted_list_of_set (fst ` set (Progress proc)))))"

definition demo_print_env :: print_env where
  "demo_print_env =
     \<lparr>Progress_String = (\<lambda>p. p_Name p),
      TreePrint = (\<lambda>node children. node @ concat (map (\<lambda>c. ''/'' @ c) children))\<rparr>"

definition demo_processes :: "sql_process list" where
  "demo_processes =
     [\<lparr>Connection = 1, User = ''root'', Host = ''localhost'', Database = [],
       Command = ''Query'', Query = ''SELECT 1'', Progress = [], Seconds = 2\<rparr>,
      \<lparr>Connection = 2, User = ''root'', Host = ''localhost'', Database = ''mydb'',
       Command = ''Query'', Query = ''SELECT 2'',
       Progress =
         [(''t'', \<lparr>tp_Progress = \<lparr>p_Name = ''t'', p_Done = 0, p_Total = 2\<rparr>,
                  PartitionsProgress =
                    [(''q'', \<lparr>p_Name = ''q'', p_Done = 0, p_Total = 1\<rparr>),
                     (''p'', \<lparr>p_Name = ''p'', p_Done = 1, p_Total = 1\<rparr>)]\<rparr>),
          (''s'', \<lparr>tp_Progress = \<lparr>p_Name = ''s'', p_Done = 1, p_Total = 1\<rparr>,
                  PartitionsProgress = []\<rparr>)],
       Seconds = 5\<rparr>]"

section \<open>Wire conversion of rows and schemas\<close>

text \<open>\<^verbatim>\<open>query.Field\<close> and \<^verbatim>\<open>sqltypes.Result\<close>.  A nil slice is the empty list.\<close>

record field =
  f_Name :: string
  f_Type :: wire_type
  f_Charset :: "32 word"
  f_ColumnLength :: "32 word"

type_synonym wire_row = "sql_value list"

record result =
  Fields :: "field list"
  RowsAffected :: "64 word"
  InsertID :: "64 word"
  Info :: string
  Rows :: "wire_row list"

text \<open>A call that returns a value, returns an error, or panics.\<close>

datatype 'a go_result = Ok 'a | Err error | Panic string

text \<open>The methods of \<^verbatim>\<open>sql.Type\<close> that the conversions call, as parameters.
  \<open>type_SQL2\<close> is \<open>None\<close> when the type does not implement \<^verbatim>\<open>sql.Type2\<close>
  (the type assertion panics).\<close>

record wire_env =
  type_SQL :: "sql_type \<Rightarrow> val \<Rightarrow> error + sql_value"
  type_SQL2 :: "sql_type \<Rightarrow> (val \<Rightarrow> error + sql_value) option"
  type_Type :: "sql_type \<Rightarrow> wire_type"
  IsBinaryType :: "sql_type \<Rightarrow> bool"
  MaxTextResponseByteLength :: "sql_type \<Rightarrow> 32 word"

definition CharacterSetUtf8 :: "32 word" where
  "CharacterSetUtf8 = 33"

definition CharacterSetBinary :: "32 word" where
  "CharacterSetBinary = 63"

definition sqltypes_NULL :: sql_value where
  "sqltypes_NULL = \<lparr>vtyp = sqltypes_Null, vval = []\<rparr>"

definition schemaToFields :: "wire_env \<Rightarrow> schema \<Rightarrow> field list" where
  "schemaToFields env s =
     map (\<lambda>c. \<lparr>f_Name = Name c,
               f_Type = type_Type env (Type c),
               f_Charset = (if IsBinaryType env (Type c) then CharacterSetBinary
                            else CharacterSetUtf8),
               f_ColumnLength = MaxTextResponseByteLength env (Type c)\<rparr>) s"

text \<open>The loop of \<^verbatim>\<open>rowToSQL\<close>: \<open>i\<close> is the index of the next cell and \<open>out\<close> the
  converted cells before it.  Indexing the schema out of range panics.\<close>

fun rowToSQL_loop :: "wire_env \<Rightarrow> schema \<Rightarrow> nat \<Rightarrow> row \<Rightarrow> wire_row \<Rightarrow> wire_row go_result" where
  "rowToSQL_loop env s i [] out = Ok out"
| "rowToSQL_loop env s i (v # vs) out =
     (if v = NullV then rowToSQL_loop env s (i + 1) vs (out @ [sqltypes_NULL])
      else if i < length s then
        (case type_SQL env (Type (s ! i)) v of
           Inl err \<Rightarrow> Err err
         | Inr x \<Rightarrow> rowToSQL_loop env s (i + 1) vs (out @ [x]))
      else Panic ''index out of range'')"

definition rowToSQL :: "wire_env \<Rightarrow> schema \<Rightarrow> row \<Rightarrow> wire_row go_result" where
  "rowToSQL env s row = rowToSQL_loop env s 0 row []"

fun row2ToSQL_loop :: "wire_env \<Rightarrow> schema \<Rightarrow> nat \<Rightarrow> row \<Rightarrow> wire_row \<Rightarrow> wire_row go_result" where
  "row2ToSQL_loop env s i [] out = Ok out"
| "row2ToSQL_loop env s i (v # vs) out =
     (if v = NullV then row2ToSQL_loop env s (i + 1) vs (out @ [sqltypes_NULL])
      else if i < length s then
        (case type_SQL2 env (Type (s ! i)) of
           None \<Rightarrow> Panic ''interface conversion: not sql.Type2''
         | Some SQL2 \<Rightarrow>
             (case SQL2 v of
                Inl err \<Rightarrow> Err err
              | Inr x \<Rightarrow> row2ToSQL_loop env s (i + 1) vs (out @ [x])))
      else Panic ''index out of range'')"

definition row2ToSQL :: "wire_env \<Rightarrow> schema \<Rightarrow> row \<Rightarrow> wire_row go_result" where
  "row2ToSQL env s row = row2ToSQL_loop env s 0 row []"

section \<open>The consumer of the row streaming pipeline\<close>

definition rowsBatch :: "64 word" where
  "rowsBatch = 128"

text \<open>
  Modelled from the spec: \<^verbatim>\<open>types.IsOkResult\<close> is not among the sources.  The
  specification calls an OkResult an in-band sentinel row that stands for the outcome of
  a DML statement, and the source reads \<open>row[0]\<close> as a \<^verbatim>\<open>types.OkResult\<close> after the
  test: a row of one cell that holds an OkResult.
\<close>

definition IsOkResult :: "row \<Rightarrow> bool" where
  "IsOkResult row = (case row of [OkV _] \<Rightarrow> True | _ \<Rightarrow> False)"

definition resultFromOkResult :: "ok_result \<Rightarrow> result" where
  "resultFromOkResult res =
     (let infoStr = (case ok_Info res of None \<Rightarrow> [] | Some i \<Rightarrow> i)
      in \<lparr>Fields = [], RowsAffected = ok_RowsAffected res, InsertID = ok_InsertID res,
          Info = infoStr, Rows = []\<rparr>)"

subsection \<open>The timer\<close>

text \<open>
  A \<^verbatim>\<open>time.Timer\<close> as the documentation of package \<open>time\<close> describes it: it is
  active until it fires or is stopped; when it fires, the time is sent on its channel
  \<open>C\<close> and stays there until received; \<open>Stop\<close> reports whether the call stopped an
  active timer; \<open>Reset\<close> makes it active again.  \<open>t_armed\<close> lists the durations it was
  armed with.
\<close>

record timer =
  t_active :: bool
  t_pending :: bool
  t_armed :: "duration list"

definition NewTimer :: "duration \<Rightarrow> timer" where
  "NewTimer d = \<lparr>t_active = True, t_pending = False, t_armed = [d]\<rparr>"

definition timer_fire :: "timer \<Rightarrow> timer" where
  "timer_fire t = (if t_active t then t\<lparr>t_active := False, t_pending := True\<rparr> else t)"

text \<open>Receiving from \<open>C\<close>: \<open>None\<close> when there is nothing to receive.\<close>

definition timer_recv :: "timer \<Rightarrow> timer option" where
  "timer_recv t = (if t_pending t then Some (t\<lparr>t_pending := False\<rparr>) else None)"

definition timer_Stop :: "timer \<Rightarrow> bool \<times> timer" where
  "timer_Stop t = (t_active t, t\<lparr>t_active := False\<rparr>)"

definition timer_Reset :: "duration \<Rightarrow> timer \<Rightarrow> timer" where
  "timer_Reset d t = t\<lparr>t_active := True, t_armed := t_armed t @ [d]\<rparr>"

text \<open>
  The end of a round of the consumer:
  \<^verbatim>\<open>if !timer.Stop() { <-timer.C }; timer.Reset(waitTime)\<close>.
  \<open>None\<close>: the receive finds nothing on the channel of a timer that is not active, and
  nothing will ever be sent, so the goroutine stays blocked.
\<close>

definition stop_drain_reset :: "duration \<Rightarrow> timer \<Rightarrow> timer option" where
  "stop_drain_reset d t =
     (case timer_Stop t of
        (stopped, t1) \<Rightarrow>
          if \<not> stopped then
            (case timer_recv t1 of
               None \<Rightarrow> None
             | Some t2 \<Rightarrow> Some (timer_Reset d t2))
          else Some (timer_Reset d t1))"

subsection \<open>The loop\<close>

text \<open>What the consumer closure reads and never writes.  The callback is given the
  number of earlier invocations, so that it may answer differently from call to call.\<close>

record cenv =
  c_readTimeout :: duration
  c_schema :: schema
  c_isNode2 :: bool
  c_more :: bool
  c_callback :: "nat \<Rightarrow> result option \<Rightarrow> bool \<Rightarrow> error option"
  c_wire :: wire_env

text \<open>The variables of \<^verbatim>\<open>doQuery\<close> that the consumer writes, and the invocations
  of the callback so far.\<close>

record pipe =
  var_r :: "result option"
  processedAtLeastOneBatch :: bool
  var_timer :: timer
  calls :: "(result option \<times> bool) list"

text \<open>What a \<open>select\<close> of the consumer sees: the context done, a row received, the row
  channel closed, the timer's channel received.  \<open>EvFire\<close> is the timer firing while
  the consumer waits, without the \<open>select\<close> taking it.\<close>

datatype event = EvDone | EvRow row | EvClosed | EvTimer | EvFire

definition waitTime :: "duration \<Rightarrow> duration" where
  "waitTime readTimeout = (if readTimeout > 0 then readTimeout else 1 * Minute)"

definition new_result :: "cenv \<Rightarrow> result" where
  "new_result ce =
     \<lparr>Fields = schemaToFields (c_wire ce) (c_schema ce), RowsAffected = 0, InsertID = 0,
      Info = [], Rows = []\<rparr>"

definition is_full :: "result option \<Rightarrow> bool" where
  "is_full x = (case x of None \<Rightarrow> False | Some res \<Rightarrow> RowsAffected res = rowsBatch)"

function consumer :: "cenv \<Rightarrow> pipe \<Rightarrow> event list \<Rightarrow> error option outcome \<times> pipe" where
  "consumer ce st0 evs =
     (let cur = (case var_r st0 of None \<Rightarrow> new_result ce | Some res \<Rightarrow> res);
          st = st0\<lparr>var_r := Some cur\<rparr>
      in if RowsAffected cur = rowsBatch then
           (let st1 = st\<lparr>calls := calls st @ [(Some cur, c_more ce)]\<rparr>
            in case c_callback ce (length (calls st)) (Some cur) (c_more ce) of
                 Some err \<Rightarrow> (Returns (Some err), st1)
               | None \<Rightarrow>
                   consumer ce (st1\<lparr>var_r := None, processedAtLeastOneBatch := True\<rparr>) evs)
         else
           (case evs of
              [] \<Rightarrow> (Blocks, st)
            | EvFire # rest \<Rightarrow> consumer ce (st\<lparr>var_timer := timer_fire (var_timer st)\<rparr>) rest
            | EvDone # rest \<Rightarrow> (Returns None, st)
            | EvClosed # rest \<Rightarrow> (Returns None, st)
            | EvRow row # rest \<Rightarrow>
                if \<not> c_isNode2 ce \<and> IsOkResult row then
                  (if length (Rows cur) > 0 then
                     (Panics ''Got OkResult mixed with RowResult'', st)
                   else
                     (case row of
                        OkV res # _ \<Rightarrow> consumer ce (st\<lparr>var_r := Some (resultFromOkResult res)\<rparr>) rest
                      | _ \<Rightarrow> (Panics ''interface conversion'', st)))
                else
                  (case (if c_isNode2 ce then row2ToSQL (c_wire ce) (c_schema ce) row
                         else rowToSQL (c_wire ce) (c_schema ce) row) of
                     Panic msg \<Rightarrow> (Panics msg, st)
                   | Err err \<Rightarrow> (Returns (Some err), st)
                   | Ok outputRow \<Rightarrow>
                       (let st1 = st\<lparr>var_r := Some (cur\<lparr>Rows := Rows cur @ [outputRow],
                                                    RowsAffected := RowsAffected cur + 1\<rparr>)\<rparr>
                        in case stop_drain_reset (waitTime (c_readTimeout ce)) (var_timer st1) of
                             None \<Rightarrow> (Blocks, st1)
                           | Some t \<Rightarrow> consumer ce (st1\<lparr>var_timer := t\<rparr>) rest))
            | EvTimer # rest \<Rightarrow>
                (case timer_recv (timer_fire (var_timer st)) of
                   None \<Rightarrow> (Blocks, st)
                 | Some t1 \<Rightarrow>
                     (let st1 = st\<lparr>var_timer := t1\<rparr>
                      in if c_readTimeout ce \<noteq> 0 then (Returns (Some ErrRowTimeout), st1)
                         else
                           (case stop_drain_reset (waitTime (c_readTimeout ce)) t1 of
                              None \<Rightarrow> (Blocks, st1)
                            | Some t2 \<Rightarrow> consumer ce (st1\<lparr>var_timer := t2\<rparr>) rest)))))"
  by pat_completeness auto
termination
  by (relation "measure (\<lambda>(ce, st, evs). 2 * length evs + (if is_full (var_r st) then 1 else 0))")
     (auto simp: is_full_def new_result_def rowsBatch_def split: option.splits)

declare consumer.simps [simp del]

section \<open>The producer, and doQuery as a whole\<close>

text \<open>
  What the producer goroutine meets in one round of its loop: the context done at the
  head of the round (only the Row loop looks there), or a call of \<open>Next\<close> with its
  result; for a row, \<open>True\<close> when the send on the channel went through and \<open>False\<close>
  when the context was done first.
\<close>

datatype next_result = NextRow row | NextEOF | NextErr error

datatype prod_step = SeesDone | CallsNext next_result bool

text \<open>The Row loop: the result of the goroutine and the rows sent, in order.\<close>

fun producer_rows :: "prod_step list \<Rightarrow> row list \<Rightarrow> error option outcome \<times> row list" where
  "producer_rows [] sent = (Blocks, sent)"
| "producer_rows (SeesDone # rest) sent = (Returns None, sent)"
| "producer_rows (CallsNext NextEOF _ # rest) sent = (Returns None, sent)"
| "producer_rows (CallsNext (NextErr err) _ # rest) sent = (Returns (Some err), sent)"
| "producer_rows (CallsNext (NextRow row) ok # rest) sent =
     (if ok then producer_rows rest (sent @ [row]) else (Returns None, sent))"

text \<open>The Row2 loop calls \<open>Close\<close> itself at the end of the stream and on an error
  of \<open>Next2\<close>; the third component counts these calls.  \<open>close_err\<close> is what that
  \<open>Close\<close> returns.\<close>

fun producer_rows2 ::
  "error option \<Rightarrow> prod_step list \<Rightarrow> row list \<Rightarrow> error option outcome \<times> row list \<times> nat" where
  "producer_rows2 close_err [] sent = (Blocks, sent, 0)"
| "producer_rows2 close_err (SeesDone # rest) sent = producer_rows2 close_err rest sent"
| "producer_rows2 close_err (CallsNext NextEOF _ # rest) sent = (Returns close_err, sent, 1)"
| "producer_rows2 close_err (CallsNext (NextErr err) _ # rest) sent = (Returns (Some err), sent, 1)"
| "producer_rows2 close_err (CallsNext (NextRow row) ok # rest) sent =
     (if ok then producer_rows2 close_err rest (sent @ [row]) else (Returns None, sent, 0))"

text \<open>
  What the consumer chooses at each \<open>select\<close>.  A receive takes the next row the
  producer sent, or finds the channel closed once the producer has returned; with
  nothing sent and the channel open, the consumer waits for ever, and its events end.
\<close>

datatype sched = Recv | SelDone | SelTimer | Fires

fun consumer_events :: "sched list \<Rightarrow> row list \<Rightarrow> bool \<Rightarrow> event list" where
  "consumer_events [] ch closed = []"
| "consumer_events (Recv # ss) (x # ch) closed = EvRow x # consumer_events ss ch closed"
| "consumer_events (Recv # ss) [] closed =
     (if closed then EvClosed # consumer_events ss [] closed else [])"
| "consumer_events (SelDone # ss) ch closed = EvDone # consumer_events ss ch closed"
| "consumer_events (SelTimer # ss) ch closed = EvTimer # consumer_events ss ch closed"
| "consumer_events (Fires # ss) ch closed = EvFire # consumer_events ss ch closed"

datatype goroutine = Producer | Poller | Consumer | Joiner

text \<open>\<^verbatim>\<open>eg.Wait()\<close>: the first error returned by a goroutine of the group, in the
  order in which they finished.\<close>

definition eg_Wait :: "goroutine list \<Rightarrow> (goroutine \<Rightarrow> error option) \<Rightarrow> error option" where
  "eg_Wait finished res =
     (case List.map_filter res (finished @ [Producer, Poller, Consumer, Joiner]) of
        [] \<Rightarrow> None
      | err # _ \<Rightarrow> Some err)"

text \<open>The calls \<^verbatim>\<open>doQuery\<close> makes that the claims speak about, in order.  The
  callbacks of the consumer are listed before the \<open>Close\<close> of the producer; the two
  goroutines run side by side and the order between them is not fixed.\<close>

datatype action =
    ActBeginQuery
  | ActQueryNodeWithBindings
  | ActGo goroutine
  | ActCallback "result option" bool
  | ActClose
  | ActSetConnStatusFlags
  | ActEndQuery

record world =
  w_conn :: conn
  w_trace :: "action list"

datatype MultiStmtMode = MultiStmtModeOff | MultiStmtModeOn

record handler =
  readTimeout :: duration

text \<open>
  What the collaborators of one execution of \<^verbatim>\<open>doQuery\<close> answer:
  the session manager, the parser (\<open>ParseOne\<close>: whether a node was parsed, the
  pre-query and the remainder), the process list (\<open>BeginQuery\<close>: whether the returned
  context is non-nil, and the error), the engine (an error, or the schema and whether the
  iterator is a Node2 iterator), the steps of the producer, the choices of the consumer,
  the rounds of the poller, what the k-th \<open>Close\<close> returns, and the order in which the
  goroutines finish.
\<close>

record run =
  run_NewContext :: "error option"
  run_ParseOne :: "bool \<times> string \<times> string"
  run_Parse :: "error option"
  run_BeginQuery :: "bool \<times> error option"
  run_QueryNode :: "error + schema \<times> bool"
  run_producer :: "prod_step list"
  run_consumer :: "sched list"
  run_poller :: "poll_step list"
  run_Close :: "nat \<Rightarrow> error option"
  run_finished :: "goroutine list"
  run_session :: sql_context
  run_sock :: sock_env
  run_wire :: wire_env
  run_bind :: bind_env

text \<open>The deferred function: \<^verbatim>\<open>if err != nil && ctx != nil { EndQuery }\<close>, on the
  values \<open>err\<close> and \<open>ctx\<close> have when \<^verbatim>\<open>doQuery\<close> returns.\<close>

definition deferred_EndQuery :: "error option \<Rightarrow> bool \<Rightarrow> action list" where
  "deferred_EndQuery err ctx_not_nil = (if err \<noteq> None \<and> ctx_not_nil then [ActEndQuery] else [])"

text \<open>After \<^verbatim>\<open>eg.Wait()\<close> returned nil: \<open>ctx\<close> is the original context again,
  the status flags are set, and the last batch is delivered unless it is empty and a
  batch was delivered before.  Neither final \<open>return\<close> assigns \<open>err\<close>.\<close>

definition doQuery_finish ::
  "run \<Rightarrow> conn \<Rightarrow> (nat \<Rightarrow> result option \<Rightarrow> bool \<Rightarrow> error option) \<Rightarrow> string \<Rightarrow> bool \<Rightarrow> pipe
     \<Rightarrow> action list \<Rightarrow> (string \<times> error option) outcome \<times> world" where
  "doQuery_finish rn c callback remainder more_flag st trace =
     (case setConnStatusFlags (run_session rn) c of
        Inl err \<Rightarrow>
          (Returns (remainder, Some err),
           \<lparr>w_conn = c, w_trace = trace @ deferred_EndQuery (Some err) True\<rparr>)
      | Inr c' \<Rightarrow>
          (let trace1 = trace @ [ActSetConnStatusFlags]
           in case var_r st of
                None \<Rightarrow> (Panics ''nil pointer dereference'', \<lparr>w_conn = c', w_trace = trace1\<rparr>)
              | Some res \<Rightarrow>
                  if RowsAffected res = 0 \<and> processedAtLeastOneBatch st then
                    (Returns (remainder, None),
                     \<lparr>w_conn = c', w_trace = trace1 @ deferred_EndQuery None True\<rparr>)
                  else
                    (Returns (remainder, callback (length (calls st)) (Some res) more_flag),
                     \<lparr>w_conn = c',
                      w_trace = trace1 @ [ActCallback (Some res) more_flag]
                                  @ deferred_EndQuery None True\<rparr>)))"

text \<open>The four goroutines, \<^verbatim>\<open>eg.Wait()\<close>, and what follows.\<close>

definition doQuery_pipeline ::
  "handler \<Rightarrow> run \<Rightarrow> conn \<Rightarrow> (nat \<Rightarrow> result option \<Rightarrow> bool \<Rightarrow> error option) \<Rightarrow> string \<Rightarrow> bool
     \<Rightarrow> schema \<Rightarrow> bool \<Rightarrow> bool \<Rightarrow> action list \<Rightarrow> (string \<times> error option) outcome \<times> world" where
  "doQuery_pipeline h rn c callback remainder more_flag schema isNode2 ctx_not_nil trace =
     (let (prod_out, sent, prod_closes) =
            (if isNode2 then producer_rows2 (run_Close rn 0) (run_producer rn) []
             else (case producer_rows (run_producer rn) [] of (out, sent) \<Rightarrow> (out, sent, 0)));
          poll_out = fst (pollForClosedConnection (run_sock rn) c (run_poller rn));
          ce = \<lparr>c_readTimeout = readTimeout h, c_schema = schema, c_isNode2 = isNode2,
                c_more = more_flag, c_callback = callback, c_wire = run_wire rn\<rparr>;
          evs = consumer_events (run_consumer rn) sent
                  (case prod_out of Returns _ \<Rightarrow> True | _ \<Rightarrow> False);
          (cons_out, st) =
            consumer ce \<lparr>var_r = None, processedAtLeastOneBatch = False,
                         var_timer = NewTimer (waitTime (readTimeout h)), calls = []\<rparr> evs;
          trace1 = trace @ [ActGo Producer, ActGo Poller, ActGo Consumer, ActGo Joiner]
                     @ map (\<lambda>(res, m). ActCallback res m) (calls st)
                     @ replicate prod_closes ActClose
      in case cons_out of
           Panics msg \<Rightarrow> (Panics msg, \<lparr>w_conn = c, w_trace = trace1\<rparr>)
         | Blocks \<Rightarrow> (Blocks, \<lparr>w_conn = c, w_trace = trace1\<rparr>)
         | Returns cons_err \<Rightarrow>
             (case prod_out of
                Panics msg \<Rightarrow> (Panics msg, \<lparr>w_conn = c, w_trace = trace1\<rparr>)
              | Blocks \<Rightarrow> (Blocks, \<lparr>w_conn = c, w_trace = trace1\<rparr>)
              | Returns prod_err \<Rightarrow>
                  (let close_err = run_Close rn prod_closes;
                       trace2 = trace1 @ [ActClose]
                   in case poll_out of
                        Panics msg \<Rightarrow> (Panics msg, \<lparr>w_conn = c, w_trace = trace2\<rparr>)
                      | Blocks \<Rightarrow> (Blocks, \<lparr>w_conn = c, w_trace = trace2\<rparr>)
                      | Returns poll_err \<Rightarrow>
                          (case eg_Wait (run_finished rn)
                                  (\<lambda>g. case g of Producer \<Rightarrow> prod_err | Poller \<Rightarrow> poll_err
                                        | Consumer \<Rightarrow> cons_err | Joiner \<Rightarrow> close_err) of
                             Some err \<Rightarrow>
                               (Returns (remainder, Some err),
                                \<lparr>w_conn = c,
                                 w_trace = trace2 @ deferred_EndQuery (Some err) ctx_not_nil\<rparr>)
                           | None \<Rightarrow>
                               doQuery_finish rn c callback remainder more_flag st trace2))))"

text \<open>
  \<^verbatim>\<open>doQuery\<close>.  The error of \<open>BeginQuery\<close> is assigned to \<open>err\<close> and
  overwritten by the next statement, \<open>schema, rowIter, err := QueryNodeWithBindings\<close>,
  without being read: \<open>begin_err\<close> is not used below.
\<close>

definition doQuery ::
  "handler \<Rightarrow> conn \<Rightarrow> string \<Rightarrow> MultiStmtMode \<Rightarrow> (string \<times> bind_variable) list
     \<Rightarrow> (nat \<Rightarrow> result option \<Rightarrow> bool \<Rightarrow> error option) \<Rightarrow> run
     \<Rightarrow> (string \<times> error option) outcome \<times> world" where
  "doQuery h c query mode bindings callback rn =
     (case run_NewContext rn of
        Some err \<Rightarrow> (Returns ([], Some err), \<lparr>w_conn = c, w_trace = []\<rparr>)
      | None \<Rightarrow>
          (case (if mode = MultiStmtModeOn then run_ParseOne rn else (False, [], [])) of
             (parsed, prequery, remainder) \<Rightarrow>
               (let more_flag = (remainder \<noteq> [])
                in case (if \<not> parsed then run_Parse rn else None) of
                     Some err \<Rightarrow> (Returns ([], Some err), \<lparr>w_conn = c, w_trace = []\<rparr>)
                   | None \<Rightarrow>
                       (case (if length bindings > 0 then bindingsToExprs (run_bind rn) bindings
                              else Inr Map.empty) of
                          Inl err \<Rightarrow>
                            (Returns (remainder, Some err), \<lparr>w_conn = c, w_trace = []\<rparr>)
                        | Inr sqlBindings \<Rightarrow>
                            (case run_BeginQuery rn of
                               (ctx_not_nil, begin_err) \<Rightarrow>
                                 (let trace = [ActBeginQuery, ActQueryNodeWithBindings]
                                  in case run_QueryNode rn of
                                       Inl err \<Rightarrow>
                                         (Returns (remainder, Some err),
                                          \<lparr>w_conn = c,
                                           w_trace = trace @ deferred_EndQuery (Some err) ctx_not_nil\<rparr>)
                                     | Inr (schema, isNode2) \<Rightarrow>
                                         doQuery_pipeline h rn c callback remainder more_flag schema
                                           isNode2 ctx_not_nil trace))))))"

subsection \<open>An example execution\<close>

definition demo_wire_env :: wire_env where
  "demo_wire_env =
     \<lparr>type_SQL = (\<lambda>t v. case v of
                      IntV i \<Rightarrow> Inr \<lparr>vtyp = sqltypes_Int64, vval = (if i = 1 then ''1'' else ''0'')\<rparr>
                    | StrV s \<Rightarrow> Inr \<lparr>vtyp = sqltypes_Text, vval = s\<rparr>
                    | _ \<Rightarrow> Inl (ErrExternal ''cannot convert'')),
      type_SQL2 = (\<lambda>t. None),
      type_Type = (\<lambda>t. if t = types_Int64 then sqltypes_Int64 else sqltypes_Text),
      IsBinaryType = (\<lambda>t. False),
      MaxTextResponseByteLength = (\<lambda>t. 20)\<rparr>"

definition demo_schema :: schema where
  "demo_schema = [\<lparr>Name = ''x'', Type = types_Int64, Nullable = False\<rparr>]"

definition demo_cenv :: "duration \<Rightarrow> cenv" where
  "demo_cenv d =
     \<lparr>c_readTimeout = d, c_schema = demo_schema, c_isNode2 = False, c_more = False,
      c_callback = (\<lambda>n res more_flag. None), c_wire = demo_wire_env\<rparr>"

definition init_pipe :: "duration \<Rightarrow> pipe" where
  "init_pipe d =
     \<lparr>var_r = None, processedAtLeastOneBatch = False,
      var_timer = NewTimer (waitTime d), calls = []\<rparr>"

text \<open>A run in which the iterator yields the given rows and then the end of the stream,
  every row is sent and received, no timer fires, nothing is cancelled and no call
  fails.\<close>

definition smooth_run :: "row list \<Rightarrow> run" where
  "smooth_run rows =
     \<lparr>run_NewContext = None,
      run_ParseOne = (True, [], []),
      run_Parse = None,
      run_BeginQuery = (True, None),
      run_QueryNode = Inr (demo_schema, False),
      run_producer = map (\<lambda>row. CallsNext (NextRow row) True) rows @ [CallsNext NextEOF True],
      run_consumer = replicate (length rows + 1) Recv,
      run_poller = [PollDone],
      run_Close = (\<lambda>k. None),
      run_finished = [Producer, Consumer, Poller, Joiner],
      run_session = demo_context,
      run_sock = demo_sock_env,
      run_wire = demo_wire_env,
      run_bind = demo_bind_env\<rparr>"

definition demo_handler :: handler where
  "demo_handler = \<lparr>readTimeout = 0\<rparr>"

definition demo_callback :: "nat \<Rightarrow> result option \<Rightarrow> bool \<Rightarrow> error option" where
  "demo_callback n res more_flag = None"

subsection \<open>Executions used as examples\<close>

definition demo_ok_row :: row where
  "demo_ok_row = [OkV \<lparr>ok_RowsAffected = 7, ok_InsertID = 42, ok_Info = None\<rparr>]"

text \<open>A run on a Node2 iterator that ends its stream at once.\<close>

definition row2_run :: run where
  "row2_run = (smooth_run [])\<lparr>run_QueryNode := Inr (demo_schema, True)\<rparr>"

text \<open>A run in which \<open>BeginQuery\<close> fails, returning the context it was given, and the
  engine then runs the query all the same.\<close>

definition begin_fails_run :: run where
  "begin_fails_run =
     (smooth_run [[IntV 1]])\<lparr>run_BeginQuery := (True, Some (ErrExternal ''pid already in use''))\<rparr>"

text \<open>A run without read timeout in which the iterator takes longer than the wait time
  for its first row: the timer fires first, and the context is cancelled afterwards.\<close>

definition slow_run :: run where
  "slow_run =
     (smooth_run [[IntV 1]])\<lparr>run_consumer := [SelTimer, SelDone, Recv, Recv]\<rparr>"

text \<open>The number of \<open>Close\<close> calls the producer makes, and the four goroutines in
  the order \<^verbatim>\<open>doQuery\<close> starts them.\<close>

definition producer_closes :: "run \<Rightarrow> bool \<Rightarrow> nat" where
  "producer_closes rn isNode2 =
     (if isNode2 then snd (snd (producer_rows2 (run_Close rn 0) (run_producer rn) [])) else 0)"

definition goroutines_started :: "action list" where
  "goroutines_started = [ActGo Producer, ActGo Poller, ActGo Consumer, ActGo Joiner]"

text \<open>A run in which the engine rejects the query.\<close>

definition engine_fails_run :: run where
  "engine_fails_run = (smooth_run [])\<lparr>run_QueryNode := Inl (ErrExternal ''table not found'')\<rparr>"

subsection \<open>Batches\<close>

text \<open>A batch as the consumer builds it from a fresh result: the fields of the schema
  and the rows received so far, counted in \<open>RowsAffected\<close>.\<close>

definition batch :: "field list \<Rightarrow> wire_row list \<Rightarrow> result" where
  "batch fs rows =
     \<lparr>Fields = fs, RowsAffected = of_nat (length rows), InsertID = 0, Info = [],
      Rows = rows\<rparr>"

text \<open>The rows of a stream cut the way the consumer cuts them: \<open>acc\<close> is the batch
  being filled, a batch of 128 rows is flushed before the next receive, and what is left
  at the end of the stream is the last batch.\<close>

fun spool :: "'a list \<Rightarrow> 'a list \<Rightarrow> 'a list list \<times> 'a list" where
  "spool acc [] = (if length acc = 128 then ([acc], []) else ([], acc))"
| "spool acc (x # xs) =
     (if length acc = 128 then (case spool [x] xs of (flushed, left) \<Rightarrow> (acc # flushed, left))
      else spool (acc @ [x]) xs)"

text \<open>The invocations of the callback in a trace, in order.\<close>

definition callbacks_of :: "action list \<Rightarrow> (result option \<times> bool) list" where
  "callbacks_of trace =
     List.map_filter (\<lambda>a. case a of ActCallback res m \<Rightarrow> Some (res, m) | _ \<Rightarrow> None) trace"

text \<open>The batches delivered for a stream of converted rows: the flushed batches, then
  the last batch unless it is empty and a batch was flushed before.\<close>

definition delivered :: "'a list \<Rightarrow> 'a list list" where
  "delivered outs =
     (case spool [] outs of
        (flushed, left) \<Rightarrow> flushed @ (if left = [] \<and> flushed \<noteq> [] then [] else [left]))"

text \<open>The run of scenario S1: three hundred rows.\<close>

definition s1_rows :: "row list" where
  "s1_rows = replicate 300 [IntV 1]"

subsection \<open>Further executions used as examples\<close>

text \<open>Bindings with a wire type that the example \<open>NewValue\<close> rejects, and bindings in
  which a value that does not parse is visited before a value of an unlisted type.\<close>

definition tuple_bindings :: "(string \<times> bind_variable) list" where
  "tuple_bindings = [(''t'', \<lparr>bv_Type = sqltypes_Tuple, bv_Value = ''x''\<rparr>)]"

definition unparsable_then_enum_bindings :: "(string \<times> bind_variable) list" where
  "unparsable_then_enum_bindings =
     [(''a'', \<lparr>bv_Type = sqltypes_Int32, bv_Value = ''zz''\<rparr>),
      (''e'', \<lparr>bv_Type = sqltypes_Enum, bv_Value = ''x''\<rparr>)]"

definition enum_bindings :: "(string \<times> bind_variable) list" where
  "enum_bindings = [(''e'', \<lparr>bv_Type = sqltypes_Enum, bv_Value = ''x''\<rparr>)]"

text \<open>An operating system on which the local address of the connection is not a
  \<^verbatim>\<open>*net.TCPAddr\<close>.\<close>

definition no_port_sock_env :: sock_env where
  "no_port_sock_env = \<lparr>GetConnInode = (\<lambda>tcp. (4711, None)), LocalAddr = (\<lambda>tcp. None)\<rparr>"

text \<open>A run on a Node2 iterator whose first \<open>Next2\<close> fails.\<close>

definition row2_error_run :: run where
  "row2_error_run =
     (smooth_run [])\<lparr>run_QueryNode := Inr (demo_schema, True),
                     run_producer := [CallsNext (NextErr (ErrExternal ''disk error'')) True]\<rparr>"

text \<open>A run on a Node2 iterator in which the context is done when the producer sends
  its first row.\<close>

definition row2_cancelled_run :: run where
  "row2_cancelled_run =
     (smooth_run [])\<lparr>run_QueryNode := Inr (demo_schema, True),
                     run_producer := [CallsNext (NextRow [IntV 1]) False],
                     run_consumer := [SelDone]\<rparr>"

text \<open>A handler with a read timeout of five seconds, and a run in which the iterator
  takes longer than that for its only row: the timer fires first, the consumer returns
  RowTimeout, and the producer sees the context done after it has sent the row.\<close>

definition timeout_handler :: handler where
  "timeout_handler = \<lparr>readTimeout = 5 * Second\<rparr>"

definition timeout_run :: run where
  "timeout_run =
     (smooth_run [[IntV 1]])\<lparr>run_producer := [CallsNext (NextRow [IntV 1]) True, SeesDone],
                              run_consumer := [SelTimer],
                              run_finished := [Consumer, Producer, Poller, Joiner]\<rparr>"

text \<open>A run in which the iterator yields no row and its \<open>Close\<close> fails.\<close>

definition close_fails_run :: run where
  "close_fails_run = (smooth_run [])\<lparr>run_Close := (\<lambda>k. Some (ErrExternal ''close failed''))\<rparr>"

text \<open>An environment in which the Year type rejects the value, as
  \<^verbatim>\<open>types.Year.Convert\<close> does for a year out of range, and a binding of that type.\<close>

definition strict_year_bind_env :: bind_env where
  "strict_year_bind_env =
     demo_bind_env\<lparr>Convert := (\<lambda>t x. if t = types_Year
                                        then Inl (ErrExternal ''year out of range'')
                                        else Inr x)\<rparr>"

definition year_bindings :: "(string \<times> bind_variable) list" where
  "year_bindings = [(''y'', \<lparr>bv_Type = sqltypes_Year, bv_Value = ''1800''\<rparr>)]"

section \<open>Theorems\<close>

lemma setConnStatusFlags_flags:
  assumes "setConnStatusFlags ctx c = Inr c'"
  shows "\<exists>ok. isSessionAutocommit ctx = Inr ok \<and>
           c' = c\<lparr>StatusFlags :=
                  (let f1 = (if ok then StatusFlags c OR ServerStatusAutocommit
                             else StatusFlags c AND NOT ServerStatusAutocommit)
                   in if GetTransaction ctx \<noteq> None then f1 OR ServerInTransaction
                      else f1 AND NOT ServerInTransaction)\<rparr>"
  using assms
  by (auto simp: setConnStatusFlags_def Let_def split: sum.splits if_splits)

lemma bit_ServerInTransaction: "bit ServerInTransaction n \<longleftrightarrow> n = 0"
  by (simp add: ServerInTransaction_def bit_1_iff)

lemma bit_ServerStatusAutocommit: "bit ServerStatusAutocommit n \<longleftrightarrow> n = 1"
proof (cases n)
  case 0
  then show ?thesis by (simp add: ServerStatusAutocommit_def bit_0)
next
  case (Suc m)
  have "(2 :: 16 word) div 2 = 1" by simp
  then show ?thesis using Suc by (simp add: ServerStatusAutocommit_def bit_Suc bit_1_iff)
qed

lemmas flag_bits =
  bit_and_iff bit_or_iff bit_not_iff bit_ServerInTransaction bit_ServerStatusAutocommit

text \<open>
  C10. \<^verbatim>\<open>setConnStatusFlags\<close> writes only the Autocommit and InTransaction bits:
  after a successful call every field of the connection other than \<open>StatusFlags\<close> is
  unchanged, and every bit of \<open>StatusFlags\<close> outside the two masks has the value it had
  before the call.
\<close>

theorem setConnStatusFlags_frame:
  assumes "setConnStatusFlags ctx c = Inr c'"
  shows "c' = c\<lparr>StatusFlags := StatusFlags c'\<rparr> \<and>
         StatusFlags c' AND NOT (ServerStatusAutocommit OR ServerInTransaction)
           = StatusFlags c AND NOT (ServerStatusAutocommit OR ServerInTransaction) \<and>
         (\<forall>n. n \<noteq> 0 \<and> n \<noteq> 1 \<longrightarrow> bit (StatusFlags c') n = bit (StatusFlags c) n)"
proof -
  from setConnStatusFlags_flags [OF assms] obtain ok where
    c': "c' = c\<lparr>StatusFlags :=
                  (let f1 = (if ok then StatusFlags c OR ServerStatusAutocommit
                             else StatusFlags c AND NOT ServerStatusAutocommit)
                   in if GetTransaction ctx \<noteq> None then f1 OR ServerInTransaction
                      else f1 AND NOT ServerInTransaction)\<rparr>"
    by blast
  have fields: "c' = c\<lparr>StatusFlags := StatusFlags c'\<rparr>"
    by (subst (2) c', subst c') simp
  have bits: "bit (StatusFlags c') n = bit (StatusFlags c) n" if "n \<noteq> 0" "n \<noteq> 1" for n
    using that by (auto simp: c' Let_def flag_bits dest: bit_imp_le_length)
  have mask: "StatusFlags c' AND NOT (ServerStatusAutocommit OR ServerInTransaction)
           = StatusFlags c AND NOT (ServerStatusAutocommit OR ServerInTransaction)"
    by (rule bit_eqI) (auto simp: c' Let_def flag_bits)
  from fields bits mask show ?thesis by blast
qed

theorem setConnStatusFlags_frame_witness:
  "setConnStatusFlags demo_context demo_conn = Inr (demo_conn\<lparr>StatusFlags := 0x400B\<rparr>) \<and>
   (0x400B :: 16 word) AND NOT (ServerStatusAutocommit OR ServerInTransaction)
     = StatusFlags demo_conn AND NOT (ServerStatusAutocommit OR ServerInTransaction)"
proof -
  have run: "setConnStatusFlags demo_context demo_conn = Inr (demo_conn\<lparr>StatusFlags := 0x400B\<rparr>)"
    by (simp add: setConnStatusFlags_def isSessionAutocommit_def demo_context_def
          demo_conn_def AutoCommitSessionVar_def ServerStatusAutocommit_def
          ServerInTransaction_def)
  from setConnStatusFlags_frame [OF run] show ?thesis
    using run by simp
qed

lemma bindingsToExprs_loop_Inr:
  "bindingsToExprs_loop env bs res = Inr out \<Longrightarrow> distinct (map fst bs) \<Longrightarrow>
     dom out = dom res \<union> fst ` set bs \<and>
     (\<forall>k. k \<notin> fst ` set bs \<longrightarrow> out k = res k) \<and>
     (\<forall>(k, b) \<in> set bs. \<exists>e. bindingsToExprs_body env b = Inr e \<and> out k = Some e)"
proof (induction bs arbitrary: res)
  case Nil
  then show ?case by simp
next
  case (Cons a bs)
  obtain k v where a: "a = (k, v)" by (cases a)
  from Cons.prems obtain e where e: "bindingsToExprs_body env v = Inr e"
    and rest: "bindingsToExprs_loop env bs (res(k \<mapsto> e)) = Inr out"
    by (auto simp: a split: sum.splits)
  from Cons.prems have d: "distinct (map fst bs)" and knot: "k \<notin> fst ` set bs"
    by (auto simp: a)
  note IH = Cons.IH [OF rest d]
  from IH knot have outk: "out k = Some e" by simp
  show ?case
    using IH knot e outk by (auto simp: a)
qed

lemma bindingsToExprs_loop_Inl:
  "bindingsToExprs_loop env bs res = Inl err \<Longrightarrow>
     \<exists>pre k b post. bs = pre @ (k, b) # post \<and> bindingsToExprs_body env b = Inl err \<and>
        (\<forall>(k', b') \<in> set pre. \<exists>e. bindingsToExprs_body env b' = Inr e)"
proof (induction bs arbitrary: res)
  case Nil
  then show ?case by simp
next
  case (Cons a bs)
  obtain k v where a: "a = (k, v)" by (cases a)
  show ?case
  proof (cases "bindingsToExprs_body env v")
    case (Inl e)
    with Cons.prems have "e = err" by (simp add: a)
    with Inl have "a # bs = [] @ (k, v) # bs \<and> bindingsToExprs_body env v = Inl err" by (simp add: a)
    then show ?thesis by fastforce
  next
    case (Inr e)
    with Cons.prems have "bindingsToExprs_loop env bs (res(k \<mapsto> e)) = Inl err" by (simp add: a)
    from Cons.IH [OF this] obtain pre k' b post where
      p: "bs = pre @ (k', b) # post" "bindingsToExprs_body env b = Inl err"
         "\<forall>(k', b') \<in> set pre. \<exists>e. bindingsToExprs_body env b' = Inr e" by blast
    have "a # bs = (a # pre) @ (k', b) # post" using p by simp
    moreover have "\<forall>(k', b') \<in> set (a # pre). \<exists>e. bindingsToExprs_body env b' = Inr e"
      using p Inr by (auto simp: a)
    ultimately show ?thesis using p(2) by blast
  qed
qed

lemma bindingsToExprs_loop_fails:
  "(k, b) \<in> set bs \<Longrightarrow> bindingsToExprs_body env b = Inl err \<Longrightarrow>
     \<exists>err'. bindingsToExprs_loop env bs res = Inl err'"
proof (induction bs arbitrary: res)
  case Nil
  then show ?case by simp
next
  case (Cons a bs)
  then show ?case by (cases a) (auto split: sum.splits)
qed

lemma bindingsToExprs_loop_first_failure:
  "(\<forall>(k', b') \<in> set pre. \<exists>e. bindingsToExprs_body env b' = Inr e) \<Longrightarrow>
   bindingsToExprs_body env b = Inl err \<Longrightarrow>
   bindingsToExprs_loop env (pre @ (k, b) # post) res = Inl err"
proof (induction pre arbitrary: res)
  case Nil
  then show ?case by simp
next
  case (Cons a pre)
  then show ?case by (cases a) (auto split: sum.splits)
qed

lemma apply_row_string:
  "apply_row env AsString (FixedType t) v = convert_literal env t (StrV (vval v))"
  by (simp add: apply_row_def type_of_row_def parse_as_def convert_literal_def)

lemma apply_row_bytes:
  "apply_row env AsRawBytes (FixedType t) v = convert_literal env t (BytesV (vval v))"
  by (simp add: apply_row_def type_of_row_def parse_as_def convert_literal_def)

lemma apply_row_nothing:
  "apply_row env AsNothing (FixedType t) v = Inr \<lparr>lit_value = NullV, lit_type = t\<rparr>"
  by (simp add: apply_row_def type_of_row_def parse_as_def convert_literal_def)

lemma apply_row_int:
  "apply_row env AsBase0Int64 (FixedType t) v =
     (case ParseInt env (vval v) 0 64 of Inl err \<Rightarrow> Inl err
      | Inr i \<Rightarrow> convert_literal env t (IntV i))"
  by (simp add: apply_row_def type_of_row_def parse_as_def convert_literal_def split: sum.splits)

lemma apply_row_uint:
  "apply_row env AsBase0Uint64 (FixedType t) v =
     (case ParseUint env (vval v) 0 64 of Inl err \<Rightarrow> Inl err
      | Inr u \<Rightarrow> convert_literal env t (UintV u))"
  by (simp add: apply_row_def type_of_row_def parse_as_def convert_literal_def split: sum.splits)

lemma apply_row_float:
  "apply_row env AsFloat64 (FixedType t) v =
     (case ParseFloat env (vval v) 64 of Inl err \<Rightarrow> Inl err
      | Inr f \<Rightarrow> convert_literal env t (FloatV f))"
  by (simp add: apply_row_def type_of_row_def parse_as_def convert_literal_def split: sum.splits)

lemma apply_row_binary:
  "apply_row env AsRawBytes BinaryOfLength v =
     (case CreateBinary env (vtyp v) (int (length (vval v))) of Inl err \<Rightarrow> Inl err
      | Inr t \<Rightarrow> convert_literal env t (BytesV (vval v)))"
  by (simp add: apply_row_def type_of_row_def parse_as_def convert_literal_def split: sum.splits)

lemma apply_row_text:
  "apply_row env AsRawBytes StringOfLengthWithDefaults v =
     (case CreateStringWithDefaults env (vtyp v) (int (length (vval v))) of Inl err \<Rightarrow> Inl err
      | Inr t \<Rightarrow> convert_literal env t (BytesV (vval v)))"
  by (simp add: apply_row_def type_of_row_def parse_as_def convert_literal_def split: sum.splits)

lemma apply_row_datetime:
  "apply_row env AsString DatetimeOfSubtype v =
     (case CreateDatetimeType env (vtyp v) of Inl err \<Rightarrow> Inl err
      | Inr t \<Rightarrow> convert_literal env t (StrV (vval v)))"
  by (simp add: apply_row_def type_of_row_def parse_as_def convert_literal_def split: sum.splits)

lemmas apply_row_simps =
  apply_row_string apply_row_bytes apply_row_nothing apply_row_int apply_row_uint
  apply_row_float apply_row_binary apply_row_text apply_row_datetime

lemma body_after_NewValue:
  assumes "NewValue env (bv_Type b) (bv_Value b) = Inr v"
  shows "bindingsToExprs_body env b = tabulated_literal env v"
proof -
  let ?t = "vtyp v"
  consider (year) "?t = sqltypes_Year"
    | (signed) "?t \<noteq> sqltypes_Year" "IsSigned env ?t"
    | (unsigned) "?t \<noteq> sqltypes_Year" "\<not> IsSigned env ?t" "IsUnsigned env ?t"
    | (float) "?t \<noteq> sqltypes_Year" "\<not> IsSigned env ?t" "\<not> IsUnsigned env ?t" "IsFloat env ?t"
    | (rest) "?t \<noteq> sqltypes_Year" "\<not> IsSigned env ?t" "\<not> IsUnsigned env ?t" "\<not> IsFloat env ?t"
    by blast
  then show ?thesis
  proof cases
    case year
    then show ?thesis
      by (simp add: bindingsToExprs_body_def assms tabulated_literal_def coercion_table_def
            apply_row_simps)
  next
    case signed
    then show ?thesis
      by (simp add: bindingsToExprs_body_def assms tabulated_literal_def coercion_table_def
            apply_row_simps)
  next
    case unsigned
    then show ?thesis
      by (simp add: bindingsToExprs_body_def assms tabulated_literal_def coercion_table_def
            apply_row_simps)
  next
    case float
    then show ?thesis
      by (simp add: bindingsToExprs_body_def assms tabulated_literal_def coercion_table_def
            apply_row_simps)
  next
    case rest
    then show ?thesis
      by (cases "vtyp v")
         (simp_all add: bindingsToExprs_body_def assms tabulated_literal_def coercion_table_def
            apply_row_simps)
  qed
qed

lemma not_listed:
  "\<not> listed_in_table env (vtyp v) \<Longrightarrow> tabulated_literal env v = Inl ErrUnsupportedOperation"
  by (simp add: listed_in_table_def tabulated_literal_def coercion_table_def)


lemma bindingsToExprs_loop_append:
  "bindingsToExprs_loop env (pre @ rest) res =
     (case bindingsToExprs_loop env pre res of
        Inl err \<Rightarrow> Inl err
      | Inr out \<Rightarrow> bindingsToExprs_loop env rest out)"
  by (induction pre arbitrary: res) (auto split: sum.splits)

lemma tabulated_literal_row:
  "tabulated_literal env v =
     (case table_row env (vtyp v) of
        None \<Rightarrow> Inl ErrUnsupportedOperation
      | Some (p, tt) \<Rightarrow> apply_row env p tt v)"
  by (cases "find (\<lambda>(covers, _). covers (vtyp v)) (coercion_table env)")
     (auto simp: tabulated_literal_def table_row_def)

lemma table_row_None:
  "table_row env t = None \<longleftrightarrow> \<not> listed_in_table env t"
  by (auto simp: table_row_def listed_in_table_def find_None_iff list_ex_iff)

lemma apply_row_Inr:
  "apply_row env p tt v = Inr l \<Longrightarrow>
     \<exists>t x c. type_of_row env tt v = Inr t \<and> parse_as env p (vval v) = Inr x \<and>
        (if p = AsNothing then c = NullV else Convert env t x = Inr c) \<and>
        l = \<lparr>lit_value = c, lit_type = t\<rparr>"
  by (auto simp: apply_row_def split: sum.splits if_splits)

lemma body_prescribed:
  assumes "bindingsToExprs_body env b = Inr l"
  shows "\<exists>v p tt t x c.
           NewValue env (bv_Type b) (bv_Value b) = Inr v \<and>
           table_row env (vtyp v) = Some (p, tt) \<and>
           type_of_row env tt v = Inr t \<and>
           parse_as env p (vval v) = Inr x \<and>
           (if p = AsNothing then c = NullV else Convert env t x = Inr c) \<and>
           tabulated_literal env v = Inr \<lparr>lit_value = c, lit_type = t\<rparr> \<and>
           l = \<lparr>lit_value = c, lit_type = t\<rparr>"
proof -
  from assms obtain v where v: "NewValue env (bv_Type b) (bv_Value b) = Inr v"
    by (cases "NewValue env (bv_Type b) (bv_Value b)") (simp_all add: bindingsToExprs_body_def)
  from assms body_after_NewValue [OF v] have tl: "tabulated_literal env v = Inr l" by simp
  then obtain p tt where row: "table_row env (vtyp v) = Some (p, tt)"
    and ar: "apply_row env p tt v = Inr l"
    by (cases "table_row env (vtyp v)") (auto simp: tabulated_literal_row)
  from apply_row_Inr [OF ar] obtain t x c where
    "type_of_row env tt v = Inr t" "parse_as env p (vval v) = Inr x"
    "if p = AsNothing then c = NullV else Convert env t x = Inr c"
    "l = \<lparr>lit_value = c, lit_type = t\<rparr>"
    by blast
  with v row tl show ?thesis by blast
qed


text \<open>
  C3 as stated fails.  A wire type outside the table need not give UnsupportedOperation:
  \<^verbatim>\<open>sqltypes.NewValue\<close> validates the binding before the \<^verbatim>\<open>switch\<close>, and a type it
  rejects (Tuple here) makes \<^verbatim>\<open>bindingsToExprs\<close> return the error of \<open>NewValue\<close>; and
  when a binding visited earlier fails to parse, that error is returned, not the
  UnsupportedOperation of the unlisted type visited after it.
\<close>

theorem bindingsToExprs_unlisted_without_UnsupportedOperation:
  "\<not> listed_in_table demo_bind_env sqltypes_Tuple
   \<and> bindingsToExprs demo_bind_env tuple_bindings
       = Inl (ErrExternal ''invalid type specified for MakeValue'')
   \<and> \<not> listed_in_table demo_bind_env sqltypes_Enum
   \<and> bindingsToExprs demo_bind_env unparsable_then_enum_bindings
       = Inl (ErrExternal ''strconv.ParseInt: invalid syntax'')"
  by (simp add: listed_in_table_def coercion_table_def demo_bind_env_def
        bindingsToExprs_def tuple_bindings_def unparsable_then_enum_bindings_def
        bindingsToExprs_body_def)

text \<open>
  C3, amended.  For every bindings map (distinct names, visited in any order):
  when \<^verbatim>\<open>bindingsToExprs\<close> succeeds, its result has exactly the names of the
  bindings, and each name holds the literal of the row of section 4.A that covers the wire
  type of the validated value (Year to Year; signed to Int64 and unsigned to Uint64, parsed
  with base 0; float to Float64; Decimal to the internal decimal; Bit to Bit with max
  bits; Null to Null; Blob, VarBinary, Binary to the binary type of the byte length; Text,
  VarChar, Char to the string type of the byte length; Date, Datetime, Timestamp to the
  datetime type of the subtype; Time to Time): the type is the one the row creates, and
  the value is the conversion by that type of what the row parses.  The first binding
  that fails ends the function with its error: the error of \<open>NewValue\<close> when the wire
  validation rejects it; UnsupportedOperation when the validated value has a wire type
  that no row lists; the error of the type constructor, of the parser, or of the
  conversion when one of them fails.  Any failing binding makes the function return an
  error, and every error returned is the failure of one binding.
\<close>

theorem bindingsToExprs_coercion:
  assumes "distinct (map fst bindings)"
  shows "(\<forall>res. bindingsToExprs env bindings = Inr res \<longrightarrow>
            dom res = fst ` set bindings \<and>
            (\<forall>(k, b) \<in> set bindings. \<exists>v p tt t x c.
                NewValue env (bv_Type b) (bv_Value b) = Inr v \<and>
                table_row env (vtyp v) = Some (p, tt) \<and>
                type_of_row env tt v = Inr t \<and>
                parse_as env p (vval v) = Inr x \<and>
                (if p = AsNothing then c = NullV else Convert env t x = Inr c) \<and>
                tabulated_literal env v = Inr \<lparr>lit_value = c, lit_type = t\<rparr> \<and>
                res k = Some \<lparr>lit_value = c, lit_type = t\<rparr>))
       \<and> (\<forall>pre k b post sofar.
            bindings = pre @ (k, b) # post \<and> bindingsToExprs env pre = Inr sofar \<longrightarrow>
              (\<forall>e. NewValue env (bv_Type b) (bv_Value b) = Inl e \<longrightarrow>
                   bindingsToExprs env bindings = Inl e)
            \<and> (\<forall>v. NewValue env (bv_Type b) (bv_Value b) = Inr v \<longrightarrow>
                   (\<not> listed_in_table env (vtyp v) \<longrightarrow>
                      bindingsToExprs env bindings = Inl ErrUnsupportedOperation)
                 \<and> (\<forall>p tt. table_row env (vtyp v) = Some (p, tt) \<longrightarrow>
                      (\<forall>e. type_of_row env tt v = Inl e \<longrightarrow>
                           bindingsToExprs env bindings = Inl e)
                    \<and> (\<forall>t. type_of_row env tt v = Inr t \<longrightarrow>
                           (\<forall>e. parse_as env p (vval v) = Inl e \<longrightarrow>
                                bindingsToExprs env bindings = Inl e)
                         \<and> (\<forall>x e. parse_as env p (vval v) = Inr x \<and> p \<noteq> AsNothing \<and>
                                  Convert env t x = Inl e \<longrightarrow>
                                bindingsToExprs env bindings = Inl e)))))
       \<and> (\<forall>k b.
            (k, b) \<in> set bindings \<and>
            (case NewValue env (bv_Type b) (bv_Value b) of
               Inl e \<Rightarrow> True
             | Inr v \<Rightarrow> \<exists>e. tabulated_literal env v = Inl e) \<longrightarrow>
            (\<exists>err. bindingsToExprs env bindings = Inl err))
       \<and> (\<forall>err. bindingsToExprs env bindings = Inl err \<longrightarrow>
            (\<exists>(k, b) \<in> set bindings.
               case NewValue env (bv_Type b) (bv_Value b) of
                 Inl e \<Rightarrow> e = err
               | Inr v \<Rightarrow> tabulated_literal env v = Inl err))"
proof (intro conjI)
  show "\<forall>res. bindingsToExprs env bindings = Inr res \<longrightarrow>
            dom res = fst ` set bindings \<and>
            (\<forall>(k, b) \<in> set bindings. \<exists>v p tt t x c.
                NewValue env (bv_Type b) (bv_Value b) = Inr v \<and>
                table_row env (vtyp v) = Some (p, tt) \<and>
                type_of_row env tt v = Inr t \<and>
                parse_as env p (vval v) = Inr x \<and>
                (if p = AsNothing then c = NullV else Convert env t x = Inr c) \<and>
                tabulated_literal env v = Inr \<lparr>lit_value = c, lit_type = t\<rparr> \<and>
                res k = Some \<lparr>lit_value = c, lit_type = t\<rparr>)"
  proof (intro allI impI conjI ballI, goal_cases)
    case (1 res)
    then have "bindingsToExprs_loop env bindings Map.empty = Inr res"
      by (simp add: bindingsToExprs_def)
    from bindingsToExprs_loop_Inr [OF this assms] show ?case by simp
  next
    case (2 res kb)
    obtain k b where kb: "kb = (k, b)" by (cases kb)
    from 2 have "bindingsToExprs_loop env bindings Map.empty = Inr res"
      by (simp add: bindingsToExprs_def)
    from bindingsToExprs_loop_Inr [OF this assms] 2(2) kb
    obtain l where l: "bindingsToExprs_body env b = Inr l" "res k = Some l"
      by blast
    from body_prescribed [OF l(1)] l(2) show ?case
      unfolding kb by (simp only: prod.case) blast
  qed
next
  show "\<forall>pre k b post sofar.
            bindings = pre @ (k, b) # post \<and> bindingsToExprs env pre = Inr sofar \<longrightarrow>
              (\<forall>e. NewValue env (bv_Type b) (bv_Value b) = Inl e \<longrightarrow>
                   bindingsToExprs env bindings = Inl e)
            \<and> (\<forall>v. NewValue env (bv_Type b) (bv_Value b) = Inr v \<longrightarrow>
                   (\<not> listed_in_table env (vtyp v) \<longrightarrow>
                      bindingsToExprs env bindings = Inl ErrUnsupportedOperation)
                 \<and> (\<forall>p tt. table_row env (vtyp v) = Some (p, tt) \<longrightarrow>
                      (\<forall>e. type_of_row env tt v = Inl e \<longrightarrow>
                           bindingsToExprs env bindings = Inl e)
                    \<and> (\<forall>t. type_of_row env tt v = Inr t \<longrightarrow>
                           (\<forall>e. parse_as env p (vval v) = Inl e \<longrightarrow>
                                bindingsToExprs env bindings = Inl e)
                         \<and> (\<forall>x e. parse_as env p (vval v) = Inr x \<and> p \<noteq> AsNothing \<and>
                                  Convert env t x = Inl e \<longrightarrow>
                                bindingsToExprs env bindings = Inl e))))"
  proof (intro allI impI)
    fix pre k b post sofar
    assume h: "bindings = pre @ (k, b) # post \<and> bindingsToExprs env pre = Inr sofar"
    have fail: "bindingsToExprs env bindings = Inl e"
      if "bindingsToExprs_body env b = Inl e" for e
      using h that by (simp add: bindingsToExprs_def bindingsToExprs_loop_append)
    have c1: "bindingsToExprs env bindings = Inl e"
      if "NewValue env (bv_Type b) (bv_Value b) = Inl e" for e
      using that by (intro fail) (simp add: bindingsToExprs_body_def)
    have c2: "bindingsToExprs env bindings = Inl ErrUnsupportedOperation"
      if "NewValue env (bv_Type b) (bv_Value b) = Inr v" "\<not> listed_in_table env (vtyp v)" for v
      using body_after_NewValue [OF that(1)] not_listed [OF that(2)]
      by (intro fail) simp
    have c3: "bindingsToExprs env bindings = Inl e"
      if "NewValue env (bv_Type b) (bv_Value b) = Inr v" "table_row env (vtyp v) = Some (p, tt)"
        "type_of_row env tt v = Inl e" for v p tt e
      using body_after_NewValue [OF that(1)] that(2,3)
      by (intro fail) (simp add: tabulated_literal_row apply_row_def)
    have c4: "bindingsToExprs env bindings = Inl e"
      if "NewValue env (bv_Type b) (bv_Value b) = Inr v" "table_row env (vtyp v) = Some (p, tt)"
        "type_of_row env tt v = Inr t" "parse_as env p (vval v) = Inl e" for v p tt t e
      using body_after_NewValue [OF that(1)] that(2,3,4)
      by (intro fail) (simp add: tabulated_literal_row apply_row_def)
    have c5: "bindingsToExprs env bindings = Inl e"
      if "NewValue env (bv_Type b) (bv_Value b) = Inr v" "table_row env (vtyp v) = Some (p, tt)"
        "type_of_row env tt v = Inr t"
        "parse_as env p (vval v) = Inr x \<and> p \<noteq> AsNothing \<and> Convert env t x = Inl e"
      for v p tt t x e
      using body_after_NewValue [OF that(1)] that(2,3,4)
      by (intro fail) (simp add: tabulated_literal_row apply_row_def)
    show "(\<forall>e. NewValue env (bv_Type b) (bv_Value b) = Inl e \<longrightarrow>
                   bindingsToExprs env bindings = Inl e)
            \<and> (\<forall>v. NewValue env (bv_Type b) (bv_Value b) = Inr v \<longrightarrow>
                   (\<not> listed_in_table env (vtyp v) \<longrightarrow>
                      bindingsToExprs env bindings = Inl ErrUnsupportedOperation)
                 \<and> (\<forall>p tt. table_row env (vtyp v) = Some (p, tt) \<longrightarrow>
                      (\<forall>e. type_of_row env tt v = Inl e \<longrightarrow>
                           bindingsToExprs env bindings = Inl e)
                    \<and> (\<forall>t. type_of_row env tt v = Inr t \<longrightarrow>
                           (\<forall>e. parse_as env p (vval v) = Inl e \<longrightarrow>
                                bindingsToExprs env bindings = Inl e)
                         \<and> (\<forall>x e. parse_as env p (vval v) = Inr x \<and> p \<noteq> AsNothing \<and>
                                  Convert env t x = Inl e \<longrightarrow>
                                bindingsToExprs env bindings = Inl e))))"
      using c1 c2 c3 c4 c5 by blast
  qed
next
  show "\<forall>k b.
            (k, b) \<in> set bindings \<and>
            (case NewValue env (bv_Type b) (bv_Value b) of
               Inl e \<Rightarrow> True
             | Inr v \<Rightarrow> \<exists>e. tabulated_literal env v = Inl e) \<longrightarrow>
            (\<exists>err. bindingsToExprs env bindings = Inl err)"
  proof (intro allI impI)
    fix k b
    assume h: "(k, b) \<in> set bindings \<and>
            (case NewValue env (bv_Type b) (bv_Value b) of
               Inl e \<Rightarrow> True
             | Inr v \<Rightarrow> \<exists>e. tabulated_literal env v = Inl e)"
    have "\<exists>e. bindingsToExprs_body env b = Inl e"
    proof (cases "NewValue env (bv_Type b) (bv_Value b)")
      case (Inl e)
      then show ?thesis by (simp add: bindingsToExprs_body_def)
    next
      case (Inr v)
      with h body_after_NewValue [OF Inr] show ?thesis by simp
    qed
    then obtain e where "bindingsToExprs_body env b = Inl e" ..
    with h show "\<exists>err. bindingsToExprs env bindings = Inl err"
      using bindingsToExprs_loop_fails [of k b bindings env e Map.empty]
      by (simp add: bindingsToExprs_def)
  qed
next
  show "\<forall>err. bindingsToExprs env bindings = Inl err \<longrightarrow>
            (\<exists>(k, b) \<in> set bindings.
               case NewValue env (bv_Type b) (bv_Value b) of
                 Inl e \<Rightarrow> e = err
               | Inr v \<Rightarrow> tabulated_literal env v = Inl err)"
  proof (intro allI impI)
    fix err
    assume "bindingsToExprs env bindings = Inl err"
    then have "bindingsToExprs_loop env bindings Map.empty = Inl err"
      by (simp add: bindingsToExprs_def)
    from bindingsToExprs_loop_Inl [OF this] obtain pre k b post where
      p: "bindings = pre @ (k, b) # post" "bindingsToExprs_body env b = Inl err"
      by blast
    have "case NewValue env (bv_Type b) (bv_Value b) of
            Inl e \<Rightarrow> e = err | Inr v \<Rightarrow> tabulated_literal env v = Inl err"
    proof (cases "NewValue env (bv_Type b) (bv_Value b)")
      case (Inl e)
      with p(2) show ?thesis by (simp add: bindingsToExprs_body_def)
    next
      case (Inr v)
      with p(2) body_after_NewValue [OF Inr] show ?thesis by simp
    qed
    moreover have "(k, b) \<in> set bindings" using p(1) by simp
    ultimately show "\<exists>(k, b) \<in> set bindings.
               case NewValue env (bv_Type b) (bv_Value b) of
                 Inl e \<Rightarrow> e = err
               | Inr v \<Rightarrow> tabulated_literal env v = Inl err"
      by blast
  qed
qed

theorem bindingsToExprs_coercion_witness:
  "distinct (map fst demo_bindings)
   \<and> (\<exists>res. bindingsToExprs demo_bind_env demo_bindings = Inr res \<and>
        dom res = {''a'', ''b''} \<and>
        res ''a'' = Some \<lparr>lit_value = IntV 42, lit_type = types_Int64\<rparr> \<and>
        res ''b'' = Some \<lparr>lit_value = StrV ''hi'', lit_type = CreatedString sqltypes_VarChar 2\<rparr>)
   \<and> bindingsToExprs demo_bind_env enum_bindings = Inl ErrUnsupportedOperation
   \<and> bindingsToExprs demo_bind_env unparsable_then_enum_bindings
       = Inl (ErrExternal ''strconv.ParseInt: invalid syntax'')
   \<and> bindingsToExprs strict_year_bind_env year_bindings
       = Inl (ErrExternal ''year out of range'')"
proof -
  have d: "distinct (map fst demo_bindings)"
    by (simp add: demo_bindings_def)
  have run: "bindingsToExprs demo_bind_env demo_bindings =
      Inr [''a'' \<mapsto> \<lparr>lit_value = IntV 42, lit_type = types_Int64\<rparr>,
           ''b'' \<mapsto> \<lparr>lit_value = StrV ''hi'', lit_type = CreatedString sqltypes_VarChar 2\<rparr>]"
    by (simp add: bindingsToExprs_def demo_bindings_def bindingsToExprs_body_def
          demo_bind_env_def convert_literal_def)
  from bindingsToExprs_coercion [OF d, of demo_bind_env, THEN conjunct1, rule_format, OF run]
  have dom: "dom [''a'' \<mapsto> \<lparr>lit_value = IntV 42, lit_type = types_Int64\<rparr>,
           ''b'' \<mapsto> \<lparr>lit_value = StrV ''hi'', lit_type = CreatedString sqltypes_VarChar 2\<rparr>]
        = fst ` set demo_bindings"
    by (rule conjunct1)
  have ok: "\<exists>res. bindingsToExprs demo_bind_env demo_bindings = Inr res \<and>
        dom res = {''a'', ''b''} \<and>
        res ''a'' = Some \<lparr>lit_value = IntV 42, lit_type = types_Int64\<rparr> \<and>
        res ''b'' = Some \<lparr>lit_value = StrV ''hi'', lit_type = CreatedString sqltypes_VarChar 2\<rparr>"
    using dom run by (simp add: demo_bindings_def)

  let ?enum = "\<lparr>bv_Type = sqltypes_Enum, bv_Value = ''x''\<rparr>"
  have d2: "distinct (map fst enum_bindings)"
    by (simp add: enum_bindings_def)
  have h2: "enum_bindings = [] @ (''e'', ?enum) # [] \<and>
            bindingsToExprs demo_bind_env [] = Inr Map.empty"
    by (simp add: enum_bindings_def bindingsToExprs_def)
  have v2: "NewValue demo_bind_env (bv_Type ?enum) (bv_Value ?enum)
              = Inr \<lparr>vtyp = sqltypes_Enum, vval = ''x''\<rparr>"
    by (simp add: demo_bind_env_def)
  have n2: "\<not> listed_in_table demo_bind_env (vtyp \<lparr>vtyp = sqltypes_Enum, vval = ''x''\<rparr>)"
    by (simp add: listed_in_table_def coercion_table_def demo_bind_env_def)
  note E = bindingsToExprs_coercion [OF d2, of demo_bind_env, THEN conjunct2, THEN conjunct1,
      rule_format, OF h2, THEN conjunct2, rule_format, OF v2, THEN conjunct1, rule_format, OF n2]

  let ?bad = "\<lparr>bv_Type = sqltypes_Int32, bv_Value = ''zz''\<rparr>"
  have d3: "distinct (map fst unparsable_then_enum_bindings)"
    by (simp add: unparsable_then_enum_bindings_def)
  have h3: "unparsable_then_enum_bindings = [] @ (''a'', ?bad) # [(''e'', ?enum)] \<and>
            bindingsToExprs demo_bind_env [] = Inr Map.empty"
    by (simp add: unparsable_then_enum_bindings_def bindingsToExprs_def)
  have v3: "NewValue demo_bind_env (bv_Type ?bad) (bv_Value ?bad)
              = Inr \<lparr>vtyp = sqltypes_Int32, vval = ''zz''\<rparr>"
    by (simp add: demo_bind_env_def)
  have r3: "table_row demo_bind_env (vtyp \<lparr>vtyp = sqltypes_Int32, vval = ''zz''\<rparr>)
              = Some (AsBase0Int64, FixedType types_Int64)"
    by (simp add: table_row_def coercion_table_def demo_bind_env_def)
  have t3: "type_of_row demo_bind_env (FixedType types_Int64)
              \<lparr>vtyp = sqltypes_Int32, vval = ''zz''\<rparr> = Inr types_Int64"
    by (simp add: type_of_row_def)
  have p3: "parse_as demo_bind_env AsBase0Int64 (vval \<lparr>vtyp = sqltypes_Int32, vval = ''zz''\<rparr>)
              = Inl (ErrExternal ''strconv.ParseInt: invalid syntax'')"
    by (simp add: parse_as_def demo_bind_env_def)
  note P = bindingsToExprs_coercion [OF d3, of demo_bind_env, THEN conjunct2, THEN conjunct1,
      rule_format, OF h3, THEN conjunct2, rule_format, OF v3, THEN conjunct2, rule_format,
      OF r3, THEN conjunct2, rule_format, OF t3, THEN conjunct1, rule_format, OF p3]

  let ?year = "\<lparr>bv_Type = sqltypes_Year, bv_Value = ''1800''\<rparr>"
  have d4: "distinct (map fst year_bindings)"
    by (simp add: year_bindings_def)
  have h4: "year_bindings = [] @ (''y'', ?year) # [] \<and>
            bindingsToExprs strict_year_bind_env [] = Inr Map.empty"
    by (simp add: year_bindings_def bindingsToExprs_def)
  have v4: "NewValue strict_year_bind_env (bv_Type ?year) (bv_Value ?year)
              = Inr \<lparr>vtyp = sqltypes_Year, vval = ''1800''\<rparr>"
    by (simp add: strict_year_bind_env_def demo_bind_env_def)
  have r4: "table_row strict_year_bind_env (vtyp \<lparr>vtyp = sqltypes_Year, vval = ''1800''\<rparr>)
              = Some (AsString, FixedType types_Year)"
    by (simp add: table_row_def coercion_table_def)
  have t4: "type_of_row strict_year_bind_env (FixedType types_Year)
              \<lparr>vtyp = sqltypes_Year, vval = ''1800''\<rparr> = Inr types_Year"
    by (simp add: type_of_row_def)
  have p4: "parse_as strict_year_bind_env AsString (vval \<lparr>vtyp = sqltypes_Year, vval = ''1800''\<rparr>)
              = Inr (StrV ''1800'') \<and> AsString \<noteq> AsNothing \<and>
            Convert strict_year_bind_env types_Year (StrV ''1800'')
              = Inl (ErrExternal ''year out of range'')"
    by (simp add: parse_as_def strict_year_bind_env_def)
  note Y = bindingsToExprs_coercion [OF d4, of strict_year_bind_env, THEN conjunct2,
      THEN conjunct1, rule_format, OF h4, THEN conjunct2, rule_format, OF v4, THEN conjunct2,
      rule_format, OF r4, THEN conjunct2, rule_format, OF t4, THEN conjunct2, rule_format,
      OF p4]

  show ?thesis using d ok E P Y by simp
qed

lemma pollLoop_goes_on:
  "\<forall>s \<in> set pre. goes_on s \<Longrightarrow>
   pollLoop (pre @ rest) timers = pollLoop rest (timers @ replicate (length pre) tcpCheckerSleepDuration)"
proof (induction pre arbitrary: timers)
  case Nil
  then show ?case by simp
next
  case (Cons a pre)
  then obtain st err where a: "a = PollTick st err" "st \<noteq> sockstate_Broken" "st \<noteq> sockstate_Error"
    by (cases a) auto
  from Cons have "pollLoop (pre @ rest) (timers @ [tcpCheckerSleepDuration]) =
     pollLoop rest ((timers @ [tcpCheckerSleepDuration]) @ replicate (length pre) tcpCheckerSleepDuration)"
    by simp
  then show ?case using a
    by (cases st) (simp_all add: replicate_app_Cons_same)
qed

lemma pollLoop_Returns:
  "fst (pollLoop steps timers) = Returns r \<Longrightarrow>
     \<exists>pre t rest. steps = pre @ t # rest \<and> (\<forall>s \<in> set pre. goes_on s) \<and> \<not> goes_on t \<and>
        r = (case t of PollTick sockstate_Broken _ \<Rightarrow> Some ErrConnectionWasClosed | _ \<Rightarrow> None)"
proof (induction steps arbitrary: timers)
  case Nil
  then show ?case by simp
next
  case (Cons a steps)
  show ?case
  proof (cases "goes_on a")
    case True
    then obtain st err where a: "a = PollTick st err" "st \<noteq> sockstate_Broken" "st \<noteq> sockstate_Error"
      by (cases a) auto
    with Cons.prems have "fst (pollLoop steps (timers @ [tcpCheckerSleepDuration])) = Returns r"
      by (cases st) simp_all
    from Cons.IH [OF this] obtain pre t rest where
      p: "steps = pre @ t # rest" "\<forall>s \<in> set pre. goes_on s" "\<not> goes_on t"
        "r = (case t of PollTick sockstate_Broken _ \<Rightarrow> Some ErrConnectionWasClosed | _ \<Rightarrow> None)"
      by blast
    have "a # steps = (a # pre) @ t # rest" using p(1) by simp
    moreover have "\<forall>s \<in> set (a # pre). goes_on s" using p(2) True by simp
    ultimately show ?thesis using p(3,4) by blast
  next
    case False
    have "r = (case a of PollTick sockstate_Broken _ \<Rightarrow> Some ErrConnectionWasClosed | _ \<Rightarrow> None)"
    proof (cases a)
      case PollDone
      with Cons.prems show ?thesis by simp
    next
      case (PollTick st err)
      with False Cons.prems show ?thesis by (cases st) simp_all
    qed
    moreover have "a # steps = [] @ a # steps" by simp
    ultimately show ?thesis using False by fastforce
  qed
qed


text \<open>
  C6 as stated fails: on a TCP connection with a valid inode whose local address is not
  a \<^verbatim>\<open>*net.TCPAddr\<close>, \<^verbatim>\<open>pollForClosedConnection\<close> does not loop; it returns nil
  at once, also when the socket would be observed Broken.
\<close>

theorem pollForClosedConnection_no_local_port:
  "maybeGetTCPConn (Conn demo_conn) = Some 3306
   \<and> GetConnInode no_port_sock_env 3306 = (4711, None)
   \<and> pollForClosedConnection no_port_sock_env demo_conn [PollTick sockstate_Broken None]
       = (Returns None, [])
   \<and> pollForClosedConnection demo_sock_env demo_conn [PollTick sockstate_Broken None]
       = (Returns (Some ErrConnectionWasClosed), [1 * Second])"
  by (simp add: pollForClosedConnection_def maybeGetTCPConn_def demo_conn_def
        no_port_sock_env_def demo_sock_env_def tcpCheckerSleepDuration_def)

text \<open>
  C6, amended.  \<^verbatim>\<open>pollForClosedConnection\<close> returns nil at once, without arming a
  timer, when the transport, after unwrapping one \<^verbatim>\<open>ConnWithTimeouts\<close> layer, is not
  a TCP connection, when the inode lookup fails or yields inode 0, and when the local
  address of the connection is not a TCP address.  Otherwise it goes round its loop,
  arming the timer with one second before each check, and it ends at the first round that
  does not go on: with nil when the context is done, with the "connection was closed"
  error when the state is Broken, with nil when the state is Error.  It returns an error
  only when a Broken state was observed.
\<close>

theorem pollForClosedConnection_outcomes:
  "(maybeGetTCPConn (Conn c) = None \<longrightarrow>
      pollForClosedConnection env c steps = (Returns None, []))
   \<and> (\<forall>tcp inode err.
        maybeGetTCPConn (Conn c) = Some tcp \<and> GetConnInode env tcp = (inode, err) \<and>
        (err \<noteq> None \<or> inode = 0) \<longrightarrow>
        pollForClosedConnection env c steps = (Returns None, []))
   \<and> (\<forall>tcp inode.
        maybeGetTCPConn (Conn c) = Some tcp \<and> GetConnInode env tcp = (inode, None) \<and>
        inode \<noteq> 0 \<and> LocalAddr env tcp = None \<longrightarrow>
        pollForClosedConnection env c steps = (Returns None, []))
   \<and> (\<forall>tcp inode port pre t rest.
        maybeGetTCPConn (Conn c) = Some tcp \<and> GetConnInode env tcp = (inode, None) \<and>
        inode \<noteq> 0 \<and> LocalAddr env tcp = Some port \<and>
        steps = pre @ t # rest \<and> (\<forall>s \<in> set pre. goes_on s) \<and> \<not> goes_on t \<longrightarrow>
        pollForClosedConnection env c steps =
          (Returns (case t of
                      PollDone \<Rightarrow> None
                    | PollTick sockstate_Broken _ \<Rightarrow> Some ErrConnectionWasClosed
                    | PollTick _ _ \<Rightarrow> None),
           replicate (length pre + 1) tcpCheckerSleepDuration))
   \<and> (\<forall>err. fst (pollForClosedConnection env c steps) = Returns (Some err) \<longrightarrow>
        err = ErrConnectionWasClosed \<and>
        (\<exists>pre e rest. steps = pre @ PollTick sockstate_Broken e # rest \<and>
                       (\<forall>s \<in> set pre. goes_on s)))
   \<and> maybeGetTCPConn (TCPConn n) = Some n
   \<and> maybeGetTCPConn (ConnWithTimeouts (TCPConn n)) = Some n
   \<and> maybeGetTCPConn (ConnWithTimeouts (ConnWithTimeouts w)) = None
   \<and> maybeGetTCPConn OtherConn = None
   \<and> tcpCheckerSleepDuration = 1 * Second"
proof (intro conjI allI impI)
  assume "maybeGetTCPConn (Conn c) = None"
  then show "pollForClosedConnection env c steps = (Returns None, [])"
    by (simp add: pollForClosedConnection_def)
next
  fix tcp inode err
  assume "maybeGetTCPConn (Conn c) = Some tcp \<and> GetConnInode env tcp = (inode, err) \<and>
        (err \<noteq> None \<or> inode = 0)"
  then show "pollForClosedConnection env c steps = (Returns None, [])"
    by (auto simp: pollForClosedConnection_def)
next
  fix tcp inode
  assume "maybeGetTCPConn (Conn c) = Some tcp \<and> GetConnInode env tcp = (inode, None) \<and>
        inode \<noteq> 0 \<and> LocalAddr env tcp = None"
  then show "pollForClosedConnection env c steps = (Returns None, [])"
    by (simp add: pollForClosedConnection_def)
next
  fix tcp inode port pre t rest
  assume h: "maybeGetTCPConn (Conn c) = Some tcp \<and> GetConnInode env tcp = (inode, None) \<and>
        inode \<noteq> 0 \<and> LocalAddr env tcp = Some port \<and>
        steps = pre @ t # rest \<and> (\<forall>s \<in> set pre. goes_on s) \<and> \<not> goes_on t"
  then have "pollForClosedConnection env c steps =
      pollLoop (t # rest) ([tcpCheckerSleepDuration] @ replicate (length pre) tcpCheckerSleepDuration)"
    using pollLoop_goes_on [of pre "t # rest" "[tcpCheckerSleepDuration]"]
    by (simp add: pollForClosedConnection_def)
  also have "\<dots> = (Returns (case t of
                      PollDone \<Rightarrow> None
                    | PollTick sockstate_Broken _ \<Rightarrow> Some ErrConnectionWasClosed
                    | PollTick _ _ \<Rightarrow> None),
           replicate (length pre + 1) tcpCheckerSleepDuration)"
  proof (cases t)
    case PollDone
    then show ?thesis by simp
  next
    case (PollTick st e)
    with h show ?thesis by (cases st) simp_all
  qed
  finally show "pollForClosedConnection env c steps =
          (Returns (case t of
                      PollDone \<Rightarrow> None
                    | PollTick sockstate_Broken _ \<Rightarrow> Some ErrConnectionWasClosed
                    | PollTick _ _ \<Rightarrow> None),
           replicate (length pre + 1) tcpCheckerSleepDuration)" .
next
  fix err
  assume r: "fst (pollForClosedConnection env c steps) = Returns (Some err)"
  then have "fst (pollLoop steps [tcpCheckerSleepDuration]) = Returns (Some err)"
    by (auto simp: pollForClosedConnection_def split: option.splits prod.splits if_splits)
  from pollLoop_Returns [OF this] obtain pre t rest where
    p: "steps = pre @ t # rest" "\<forall>s \<in> set pre. goes_on s"
       "Some err = (case t of PollTick sockstate_Broken _ \<Rightarrow> Some ErrConnectionWasClosed
                    | _ \<Rightarrow> None)"
    by blast
  from p(3) obtain e where "t = PollTick sockstate_Broken e" "err = ErrConnectionWasClosed"
    by (auto split: poll_step.splits SockState.splits)
  with p show "err = ErrConnectionWasClosed"
    and "\<exists>pre e rest. steps = pre @ PollTick sockstate_Broken e # rest \<and>
                       (\<forall>s \<in> set pre. goes_on s)"
    by blast+
qed (simp_all add: maybeGetTCPConn_def tcpCheckerSleepDuration_def)

theorem pollForClosedConnection_outcomes_witness:
  "pollForClosedConnection demo_sock_env (demo_conn\<lparr>Conn := ConnWithTimeouts (TCPConn 9)\<rparr>)
     [PollTick sockstate_Established None, PollTick sockstate_Broken None, PollDone]
     = (Returns (Some ErrConnectionWasClosed), [1000000000, 1000000000])
   \<and> pollForClosedConnection demo_sock_env (demo_conn\<lparr>Conn := OtherConn\<rparr>)
     [PollTick sockstate_Broken None] = (Returns None, [])
   \<and> pollForClosedConnection no_port_sock_env
     (demo_conn\<lparr>Conn := ConnWithTimeouts (TCPConn 9)\<rparr>)
     [PollTick sockstate_Established None, PollTick sockstate_Broken None, PollDone]
     = (Returns None, [])"
proof -
  let ?c = "demo_conn\<lparr>Conn := ConnWithTimeouts (TCPConn 9)\<rparr>"
  let ?steps = "[PollTick sockstate_Established None, PollTick sockstate_Broken None, PollDone]"
  have a: "maybeGetTCPConn (Conn ?c) = Some 9 \<and> GetConnInode demo_sock_env 9 = (4711, None) \<and>
        (4711 :: 64 word) \<noteq> 0 \<and> LocalAddr demo_sock_env 9 = Some 3306 \<and>
        ?steps = [PollTick sockstate_Established None] @ PollTick sockstate_Broken None # [PollDone] \<and>
        (\<forall>s \<in> set [PollTick sockstate_Established None]. goes_on s) \<and>
        \<not> goes_on (PollTick sockstate_Broken None)"
    by (simp add: maybeGetTCPConn_def demo_sock_env_def)
  have b: "maybeGetTCPConn (Conn (demo_conn\<lparr>Conn := OtherConn\<rparr>)) = None"
    by (simp add: maybeGetTCPConn_def)
  note T = pollForClosedConnection_outcomes [of ?c demo_sock_env ?steps]
  note T3 = T [THEN conjunct2, THEN conjunct2, THEN conjunct2, THEN conjunct1, rule_format, OF a]
  note U = pollForClosedConnection_outcomes
      [of "demo_conn\<lparr>Conn := OtherConn\<rparr>" demo_sock_env "[PollTick sockstate_Broken None]",
       THEN conjunct1, rule_format, OF b]
  have n: "maybeGetTCPConn (Conn ?c) = Some 9 \<and> GetConnInode no_port_sock_env 9 = (4711, None) \<and>
        (4711 :: 64 word) \<noteq> 0 \<and> LocalAddr no_port_sock_env 9 = None"
    by (simp add: maybeGetTCPConn_def no_port_sock_env_def)
  note V = pollForClosedConnection_outcomes [of ?c no_port_sock_env ?steps,
      THEN conjunct2, THEN conjunct2, THEN conjunct1, rule_format, OF n]
  from T3 U V show ?thesis
    by (simp add: tcpCheckerSleepDuration_def Second_def)
qed

lemma sort_Strings_distinct:
  "distinct xs \<Longrightarrow> sort_Strings xs = sorted_list_of_set (set xs)"
  by (simp add: sort_Strings_def sorted_list_of_set_sort_remdups distinct_remdups_id)

lemma process_status_rendered:
  assumes "distinct (map fst (Progress proc))"
  shows "concat (process_status env proc) = rendered_state env proc"
proof -
  have names: "sort_Strings (map fst (Progress proc)) = sorted_list_of_set (fst ` set (Progress proc))"
    using sort_Strings_distinct [OF assms] by simp
  show ?thesis
  proof (cases "Progress proc = []")
    case True
    then show ?thesis
      by (simp add: process_status_def rendered_state_def ProcessCommandQuery_def sort_Strings_def)
  next
    case False
    then have "sort_Strings (map fst (Progress proc)) \<noteq> []"
      by (simp add: sort_Strings_def) (metis length_0_conv length_map length_sort)
    then show ?thesis
      using False by (simp add: process_status_def rendered_state_def names Let_def)
  qed
qed

lemma print_progress_children:
  "\<exists>children. sorted children \<and>
      mset children = mset (map (\<lambda>(_, pp). Progress_String env pp) (PartitionsProgress tp)) \<and>
      print_progress env tp = TreePrint env (CHR 0x0A # Progress_String env (tp_Progress tp)) children"
  by (rule exI [of _ "sort_Strings (map (\<lambda>(_, pp). Progress_String env pp) (PartitionsProgress tp))"])
     (simp add: print_progress_def sort_Strings_def)

text \<open>
  C9 as stated fails on the schema: \<open>processListSchema\<close> does not mark the db column
  nullable (the literal sets no \<open>Nullable\<close> field on any column), although the db
  cell of a row can be NULL.
\<close>

theorem processListSchema_db_not_nullable:
  "Name (processListSchema ! 3) = ''db''
   \<and> Type (processListSchema ! 3) = types_LongText
   \<and> \<not> Nullable (processListSchema ! 3)
   \<and> ShowProcessList_RowIter demo_print_env [demo_processes ! 0] ! 0 ! 3 = NullV"
  by (simp add: processListSchema_def ShowProcessList_RowIter_def process_row_def toRow_def
        demo_processes_def)

text \<open>
  C9, amended.  \<^verbatim>\<open>ShowProcessList.RowIter\<close> produces one row for every process of
  the snapshot, in order, with the cells Id, User, Host, db, Command, Time, State, Info.
  The columns of \<open>processListSchema\<close> have exactly these names, Id and Time of type
  Int64 and the others LongText, and none of them is marked nullable, db included.  The
  db cell is NULL when the database of the process is the empty string, and the LongText
  value otherwise.  State is "running" when the process has no progress entry and its
  command is Query, and otherwise the concatenation, in the order of the sorted progress
  names, of the tree-printed progress reports, each with its partition-progress children
  sorted.
\<close>

theorem ShowProcessList_RowIter_rows:
  assumes "\<forall>proc \<in> set processes. distinct (map fst (Progress proc))"
  shows "length (ShowProcessList_RowIter env processes) = length processes
     \<and> (\<forall>i < length processes.
          ShowProcessList_RowIter env processes ! i =
            [IntV (uint (Connection (processes ! i))),
             StrV (User (processes ! i)),
             StrV (Host (processes ! i)),
             (if Database (processes ! i) = [] then NullV else StrV (Database (processes ! i))),
             StrV (Command (processes ! i)),
             IntV (sint (Seconds (processes ! i))),
             StrV (rendered_state env (processes ! i)),
             StrV (Query (processes ! i))])
     \<and> map (\<lambda>c. (Name c, Type c, Nullable c)) processListSchema =
          [(''Id'', types_Int64, False), (''User'', types_LongText, False),
           (''Host'', types_LongText, False), (''db'', types_LongText, False),
           (''Command'', types_LongText, False), (''Time'', types_Int64, False),
           (''State'', types_LongText, False), (''Info'', types_LongText, False)]
     \<and> (\<forall>proc :: sql_process. Progress proc = [] \<and> Command proc = ''Query'' \<longrightarrow>
            rendered_state env proc = ''running'')
     \<and> (\<forall>proc :: sql_process. \<not> (Progress proc = [] \<and> Command proc = ''Query'') \<longrightarrow>
            rendered_state env proc =
              concat (map (\<lambda>name. print_progress env (lookup_progress (Progress proc) name))
                          (sorted_list_of_set (fst ` set (Progress proc)))))
     \<and> (\<forall>(proc :: sql_process) name tp. (name, tp) \<in> set (Progress proc) \<and> distinct (map fst (Progress proc))
            \<longrightarrow> lookup_progress (Progress proc) name = tp)
     \<and> (\<forall>tp :: table_progress. \<exists>children. sorted children \<and>
            mset children = mset (map (\<lambda>(_, pp). Progress_String env pp) (PartitionsProgress tp)) \<and>
            print_progress env tp =
              TreePrint env (CHR 0x0A # Progress_String env (tp_Progress tp)) children)"
proof (intro conjI allI impI)
  show "length (ShowProcessList_RowIter env processes) = length processes"
    by (simp add: ShowProcessList_RowIter_def)
next
  fix i
  assume i: "i < length processes"
  then have "processes ! i \<in> set processes" by simp
  with assms have "distinct (map fst (Progress (processes ! i)))" by blast
  from process_status_rendered [OF this, of env] i
  show "ShowProcessList_RowIter env processes ! i =
            [IntV (uint (Connection (processes ! i))),
             StrV (User (processes ! i)),
             StrV (Host (processes ! i)),
             (if Database (processes ! i) = [] then NullV else StrV (Database (processes ! i))),
             StrV (Command (processes ! i)),
             IntV (sint (Seconds (processes ! i))),
             StrV (rendered_state env (processes ! i)),
             StrV (Query (processes ! i))]"
    by (simp add: ShowProcessList_RowIter_def process_row_def toRow_def)
next
  show "map (\<lambda>c. (Name c, Type c, Nullable c)) processListSchema =
          [(''Id'', types_Int64, False), (''User'', types_LongText, False),
           (''Host'', types_LongText, False), (''db'', types_LongText, False),
           (''Command'', types_LongText, False), (''Time'', types_Int64, False),
           (''State'', types_LongText, False), (''Info'', types_LongText, False)]"
    by (simp add: processListSchema_def)
next
  fix proc :: sql_process
  assume "Progress proc = [] \<and> Command proc = ''Query''"
  then show "rendered_state env proc = ''running''"
    by (simp add: rendered_state_def)
next
  fix proc :: sql_process
  assume "\<not> (Progress proc = [] \<and> Command proc = ''Query'')"
  then show "rendered_state env proc =
              concat (map (\<lambda>name. print_progress env (lookup_progress (Progress proc) name))
                          (sorted_list_of_set (fst ` set (Progress proc))))"
    unfolding rendered_state_def by (simp only: if_False)
next
  fix proc :: sql_process and name tp
  assume "(name, tp) \<in> set (Progress proc) \<and> distinct (map fst (Progress proc))"
  then have "map_of (Progress proc) name = Some tp"
    by (simp add: map_of_eq_Some_iff)
  then show "lookup_progress (Progress proc) name = tp"
    by (simp add: lookup_progress_def)
next
  fix tp :: table_progress
  show "\<exists>children. sorted children \<and>
            mset children = mset (map (\<lambda>(_, pp). Progress_String env pp) (PartitionsProgress tp)) \<and>
            print_progress env tp =
              TreePrint env (CHR 0x0A # Progress_String env (tp_Progress tp)) children"
    by (rule print_progress_children)
qed

theorem ShowProcessList_RowIter_rows_witness:
  "ShowProcessList_RowIter demo_print_env demo_processes =
     [[IntV 1, StrV ''root'', StrV ''localhost'', NullV, StrV ''Query'', IntV 2,
       StrV ''running'', StrV ''SELECT 1''],
      [IntV 2, StrV ''root'', StrV ''localhost'', StrV ''mydb'', StrV ''Query'', IntV 5,
       StrV (CHR 0x0A # ''s'' @ CHR 0x0A # ''t/p/q''), StrV ''SELECT 2'']]"
proof -
  have d: "\<forall>proc \<in> set demo_processes. distinct (map fst (Progress proc))"
    by (simp add: demo_processes_def)
  note T = ShowProcessList_RowIter_rows [OF d, of demo_print_env]
  have len: "length (ShowProcessList_RowIter demo_print_env demo_processes) = 2"
    using T [THEN conjunct1] by (simp add: demo_processes_def)
  have s0: "rendered_state demo_print_env (demo_processes ! 0) = ''running''"
    by (simp add: demo_processes_def rendered_state_def)
  have s1: "rendered_state demo_print_env (demo_processes ! 1) = CHR 0x0A # ''s'' @ CHR 0x0A # ''t/p/q''"
    by code_simp
  have r0: "ShowProcessList_RowIter demo_print_env demo_processes ! 0 =
      [IntV 1, StrV ''root'', StrV ''localhost'', NullV, StrV ''Query'', IntV 2,
       StrV ''running'', StrV ''SELECT 1'']"
    using T [THEN conjunct2, THEN conjunct1, rule_format, of 0] s0
    by (simp add: demo_processes_def)
  have r1: "ShowProcessList_RowIter demo_print_env demo_processes ! 1 =
      [IntV 2, StrV ''root'', StrV ''localhost'', StrV ''mydb'', StrV ''Query'', IntV 5,
       StrV (CHR 0x0A # ''s'' @ CHR 0x0A # ''t/p/q''), StrV ''SELECT 2'']"
    using T [THEN conjunct2, THEN conjunct1, rule_format, of 1] s1
    by (simp add: demo_processes_def)
  have "ShowProcessList_RowIter demo_print_env demo_processes =
      [ShowProcessList_RowIter demo_print_env demo_processes ! 0,
       ShowProcessList_RowIter demo_print_env demo_processes ! 1]"
    using len by (simp add: list_eq_iff_nth_eq less_Suc_eq numeral_2_eq_2)
  with r0 r1 show ?thesis by simp
qed


lemma doQuery_finish_cases:
  assumes "doQuery_finish rn c cb rem mf st trace = (out, w)"
  shows "(\<exists>err. setConnStatusFlags (run_session rn) c = Inl err \<and> out = Returns (rem, Some err)
            \<and> w_conn w = c \<and> w_trace w = trace @ [ActEndQuery])
       \<or> (\<exists>c'. setConnStatusFlags (run_session rn) c = Inr c' \<and> w_conn w = c' \<and>
            (w_trace w = trace @ [ActSetConnStatusFlags] \<or>
             (\<exists>res. w_trace w = trace @ [ActSetConnStatusFlags, ActCallback res mf])) \<and>
            (\<forall>e. out = Returns (rem, Some e) \<longrightarrow>
               (\<exists>res. w_trace w = trace @ [ActSetConnStatusFlags, ActCallback res mf])))"
proof (cases "setConnStatusFlags (run_session rn) c")
  case (Inl err)
  with assms show ?thesis
    by (auto simp: doQuery_finish_def deferred_EndQuery_def)
next
  case (Inr c')
  show ?thesis
  proof (cases "var_r st")
    case None
    with assms Inr show ?thesis
      by (auto simp: doQuery_finish_def deferred_EndQuery_def)
  next
    case (Some res)
    with assms Inr show ?thesis
      by (cases "RowsAffected res = 0 \<and> processedAtLeastOneBatch st")
         (auto simp: doQuery_finish_def deferred_EndQuery_def)
  qed
qed

lemma producer_rows2_closes: "snd (snd (producer_rows2 ce steps sent)) \<le> 1"
  by (induction ce steps sent rule: producer_rows2.induct) auto

lemma doQuery_pipeline_shape:
  assumes "doQuery_pipeline h rn c cb rem mf schema isNode2 ctxnn trace = (out, w)"
  shows "\<exists>cbs tail.
           w_trace w = trace @ goroutines_started @ map (\<lambda>(res, m). ActCallback res m) cbs
                         @ replicate (producer_closes rn isNode2) ActClose @ tail \<and>
           ((tail = [] \<and> (\<forall>x. out \<noteq> Returns x) \<and> w_conn w = c)
          \<or> (tail = [ActClose] \<and> (\<forall>x. out \<noteq> Returns x) \<and> w_conn w = c)
          \<or> (\<exists>err. tail = [ActClose] @ deferred_EndQuery (Some err) ctxnn \<and>
                    out = Returns (rem, Some err) \<and> w_conn w = c)
          \<or> (\<exists>err. setConnStatusFlags (run_session rn) c = Inl err \<and>
                    tail = [ActClose, ActEndQuery] \<and> out = Returns (rem, Some err) \<and> w_conn w = c)
          \<or> (\<exists>c'. setConnStatusFlags (run_session rn) c = Inr c' \<and> w_conn w = c' \<and>
                (tail = [ActClose, ActSetConnStatusFlags] \<or>
                 (\<exists>res. tail = [ActClose, ActSetConnStatusFlags, ActCallback res mf])) \<and>
                (\<forall>e. out = Returns (rem, Some e) \<longrightarrow>
                   (\<exists>res. tail = [ActClose, ActSetConnStatusFlags, ActCallback res mf]))))"
proof -
  define P where "P = (if isNode2 then producer_rows2 (run_Close rn 0) (run_producer rn) []
             else (case producer_rows (run_producer rn) [] of (out, sent) \<Rightarrow> (out, sent, 0)))"
  obtain prod_out sent k where P: "P = (prod_out, sent, k)" by (cases P)
  have k: "k = producer_closes rn isNode2"
    using P by (auto simp: P_def producer_closes_def split: if_splits prod.splits)
  define ce where "ce = \<lparr>c_readTimeout = readTimeout h, c_schema = schema, c_isNode2 = isNode2,
                c_more = mf, c_callback = cb, c_wire = run_wire rn\<rparr>"
  define evs where "evs = consumer_events (run_consumer rn) sent
                  (case prod_out of Returns _ \<Rightarrow> True | _ \<Rightarrow> False)"
  define C where "C = consumer ce \<lparr>var_r = None, processedAtLeastOneBatch = False,
                         var_timer = NewTimer (waitTime (readTimeout h)), calls = []\<rparr> evs"
  obtain cons_out st where C: "C = (cons_out, st)" by (cases C)
  let ?trace1 = "trace @ ActGo Producer # ActGo Poller # ActGo Consumer # ActGo Joiner
                     # map (\<lambda>(res, m). ActCallback res m) (calls st)
                     @ replicate k ActClose"
  let ?poll_out = "fst (pollForClosedConnection (run_sock rn) c (run_poller rn))"
  have unfold: "doQuery_pipeline h rn c cb rem mf schema isNode2 ctxnn trace =
      (case cons_out of
           Panics msg \<Rightarrow> (Panics msg, \<lparr>w_conn = c, w_trace = ?trace1\<rparr>)
         | Blocks \<Rightarrow> (Blocks, \<lparr>w_conn = c, w_trace = ?trace1\<rparr>)
         | Returns cons_err \<Rightarrow>
             (case prod_out of
                Panics msg \<Rightarrow> (Panics msg, \<lparr>w_conn = c, w_trace = ?trace1\<rparr>)
              | Blocks \<Rightarrow> (Blocks, \<lparr>w_conn = c, w_trace = ?trace1\<rparr>)
              | Returns prod_err \<Rightarrow>
                  (let close_err = run_Close rn k;
                       trace2 = ?trace1 @ [ActClose]
                   in case ?poll_out of
                        Panics msg \<Rightarrow> (Panics msg, \<lparr>w_conn = c, w_trace = trace2\<rparr>)
                      | Blocks \<Rightarrow> (Blocks, \<lparr>w_conn = c, w_trace = trace2\<rparr>)
                      | Returns poll_err \<Rightarrow>
                          (case eg_Wait (run_finished rn)
                                  (\<lambda>g. case g of Producer \<Rightarrow> prod_err | Poller \<Rightarrow> poll_err
                                        | Consumer \<Rightarrow> cons_err | Joiner \<Rightarrow> close_err) of
                             Some err \<Rightarrow>
                               (Returns (rem, Some err),
                                \<lparr>w_conn = c,
                                 w_trace = trace2 @ deferred_EndQuery (Some err) ctxnn\<rparr>)
                           | None \<Rightarrow>
                               doQuery_finish rn c cb rem mf st trace2))))"
    unfolding doQuery_pipeline_def P_def [symmetric] P
    by (simp add: ce_def [symmetric] evs_def [symmetric] C_def [symmetric] C Let_def)
  let ?tr = "\<lambda>tail. trace @ goroutines_started @ map (\<lambda>(res, m). ActCallback res m) (calls st)
                @ replicate (producer_closes rn isNode2) ActClose @ tail"
  let ?D = "\<lambda>tail.
           ((tail = [] \<and> (\<forall>x. out \<noteq> Returns x) \<and> w_conn w = c)
          \<or> (tail = [ActClose] \<and> (\<forall>x. out \<noteq> Returns x) \<and> w_conn w = c)
          \<or> (\<exists>err. tail = [ActClose] @ deferred_EndQuery (Some err) ctxnn \<and>
                    out = Returns (rem, Some err) \<and> w_conn w = c)
          \<or> (\<exists>err. setConnStatusFlags (run_session rn) c = Inl err \<and>
                    tail = [ActClose, ActEndQuery] \<and> out = Returns (rem, Some err) \<and> w_conn w = c)
          \<or> (\<exists>c'. setConnStatusFlags (run_session rn) c = Inr c' \<and> w_conn w = c' \<and>
                (tail = [ActClose, ActSetConnStatusFlags] \<or>
                 (\<exists>res. tail = [ActClose, ActSetConnStatusFlags, ActCallback res mf])) \<and>
                (\<forall>e. out = Returns (rem, Some e) \<longrightarrow>
                   (\<exists>res. tail = [ActClose, ActSetConnStatusFlags, ActCallback res mf]))))"
  have final: "?thesis" if "w_trace w = ?tr tail" "?D tail" for tail
    using that by (intro exI [of _ "calls st"] exI [of _ tail] conjI)
  have t1: "?trace1 @ xs = ?tr xs" for xs by (simp add: goroutines_started_def k)
  have t0: "?trace1 = ?tr []" using t1 [of "[]"] by simp
  have early: ?thesis if "\<forall>x. out \<noteq> Returns x" "w = \<lparr>w_conn = c, w_trace = ?trace1\<rparr>"
    using that by (intro final [of "[]"]) (simp_all add: t0)
  have late: ?thesis if "\<forall>x. out \<noteq> Returns x" "w = \<lparr>w_conn = c, w_trace = ?trace1 @ [ActClose]\<rparr>"
    using that by (intro final [of "[ActClose]"]) (simp_all add: goroutines_started_def k)
  show ?thesis
  proof (cases cons_out)
    case Blocks
    with assms unfold have "out = Blocks" "w = \<lparr>w_conn = c, w_trace = ?trace1\<rparr>" by simp_all
    then show ?thesis by (intro early) simp_all
  next
    case (Panics msg)
    with assms unfold have "out = Panics msg" "w = \<lparr>w_conn = c, w_trace = ?trace1\<rparr>" by simp_all
    then show ?thesis by (intro early) simp_all
  next
    case cons: (Returns cons_err)
    show ?thesis
    proof (cases prod_out)
      case Blocks
      with cons assms unfold have "out = Blocks" "w = \<lparr>w_conn = c, w_trace = ?trace1\<rparr>" by simp_all
      then show ?thesis by (intro early) simp_all
    next
      case (Panics msg)
      with cons assms unfold have "out = Panics msg" "w = \<lparr>w_conn = c, w_trace = ?trace1\<rparr>" by simp_all
      then show ?thesis by (intro early) simp_all
    next
      case prod: (Returns prod_err)
      show ?thesis
      proof (cases ?poll_out)
        case Blocks
        with cons prod assms unfold have "out = Blocks" "w = \<lparr>w_conn = c, w_trace = ?trace1 @ [ActClose]\<rparr>"
          by (simp_all add: Let_def)
        then show ?thesis by (intro late) simp_all
      next
        case (Panics msg)
        with cons prod assms unfold have "out = Panics msg" "w = \<lparr>w_conn = c, w_trace = ?trace1 @ [ActClose]\<rparr>"
          by (simp_all add: Let_def)
        then show ?thesis by (intro late) simp_all
      next
        case poll: (Returns poll_err)
        define W where "W = eg_Wait (run_finished rn)
                                  (\<lambda>g. case g of Producer \<Rightarrow> prod_err | Poller \<Rightarrow> poll_err
                                        | Consumer \<Rightarrow> cons_err | Joiner \<Rightarrow> run_Close rn k)"
        show ?thesis
        proof (cases W)
          case (Some err)
          with cons prod poll assms unfold
          have o: "out = Returns (rem, Some err)" and
            w: "w = \<lparr>w_conn = c, w_trace = (?trace1 @ [ActClose]) @ deferred_EndQuery (Some err) ctxnn\<rparr>"
            by (simp_all add: Let_def W_def)
          have "w_trace w = ?tr ([ActClose] @ deferred_EndQuery (Some err) ctxnn)"
            using t1 [of "[ActClose] @ deferred_EndQuery (Some err) ctxnn"] by (simp add: w)
          moreover have "?D ([ActClose] @ deferred_EndQuery (Some err) ctxnn)"
            by (rule disjI2, rule disjI2, rule disjI1) (use o w in simp)
          ultimately show ?thesis by (rule final)
        next
          case None
          with cons prod poll assms unfold
          have fin: "doQuery_finish rn c cb rem mf st (?trace1 @ [ActClose]) = (out, w)"
            by (simp add: Let_def W_def)
          from doQuery_finish_cases [OF fin] show ?thesis
          proof (elim disjE exE conjE)
            fix err
            assume h: "setConnStatusFlags (run_session rn) c = Inl err" "out = Returns (rem, Some err)"
              "w_conn w = c" "w_trace w = (?trace1 @ [ActClose]) @ [ActEndQuery]"
            have "w_trace w = ?tr [ActClose, ActEndQuery]"
              using t1 [of "[ActClose, ActEndQuery]"] h(4) by simp
            moreover have "?D [ActClose, ActEndQuery]"
              by (rule disjI2, rule disjI2, rule disjI2, rule disjI1) (use h in simp)
            ultimately show ?thesis by (rule final)
          next
            fix c'
            assume h: "setConnStatusFlags (run_session rn) c = Inr c'" "w_conn w = c'"
              "\<forall>e. out = Returns (rem, Some e) \<longrightarrow>
                 (\<exists>res. w_trace w = (?trace1 @ [ActClose]) @ [ActSetConnStatusFlags, ActCallback res mf])"
              and tr: "w_trace w = (?trace1 @ [ActClose]) @ [ActSetConnStatusFlags]"
            have nocb: "\<And>res. w_trace w \<noteq> (?trace1 @ [ActClose]) @ [ActSetConnStatusFlags, ActCallback res mf]"
              using tr by simp
            have "w_trace w = ?tr [ActClose, ActSetConnStatusFlags]"
              using t1 [of "[ActClose, ActSetConnStatusFlags]"] tr by simp
            moreover have "?D [ActClose, ActSetConnStatusFlags]"
              by (rule disjI2, rule disjI2, rule disjI2, rule disjI2) (use h nocb in auto)
            ultimately show ?thesis by (rule final)
          next
            fix c' res
            assume h: "setConnStatusFlags (run_session rn) c = Inr c'" "w_conn w = c'"
              and tr: "w_trace w = (?trace1 @ [ActClose]) @ [ActSetConnStatusFlags, ActCallback res mf]"
            have "w_trace w = ?tr [ActClose, ActSetConnStatusFlags, ActCallback res mf]"
              using t1 [of "[ActClose, ActSetConnStatusFlags, ActCallback res mf]"] tr by simp
            moreover have "?D [ActClose, ActSetConnStatusFlags, ActCallback res mf]"
              by (rule disjI2, rule disjI2, rule disjI2, rule disjI2) (use h in auto)
            ultimately show ?thesis by (rule final)
          qed
        qed
      qed
    qed
  qed
qed

lemma doQuery_pipeline_cases:
  assumes "doQuery_pipeline h rn c cb rem mf schema isNode2 ctxnn trace = (out, w)"
  obtains
    (stuck) cbs tail where
      "w_trace w = trace @ goroutines_started @ map (\<lambda>(res, m). ActCallback res m) cbs
                     @ replicate (producer_closes rn isNode2) ActClose @ tail"
      "tail = [] \<or> tail = [ActClose]" "\<forall>x. out \<noteq> Returns x" "w_conn w = c"
  | (wait_failed) cbs err where
      "w_trace w = trace @ goroutines_started @ map (\<lambda>(res, m). ActCallback res m) cbs
                     @ replicate (producer_closes rn isNode2) ActClose
                     @ [ActClose] @ deferred_EndQuery (Some err) ctxnn"
      "out = Returns (rem, Some err)" "w_conn w = c"
  | (flags_failed) cbs err where
      "setConnStatusFlags (run_session rn) c = Inl err"
      "w_trace w = trace @ goroutines_started @ map (\<lambda>(res, m). ActCallback res m) cbs
                     @ replicate (producer_closes rn isNode2) ActClose
                     @ [ActClose, ActEndQuery]"
      "out = Returns (rem, Some err)" "w_conn w = c"
  | (flags_set) cbs c' where
      "setConnStatusFlags (run_session rn) c = Inr c'" "w_conn w = c'"
      "w_trace w = trace @ goroutines_started @ map (\<lambda>(res, m). ActCallback res m) cbs
                     @ replicate (producer_closes rn isNode2) ActClose
                     @ [ActClose, ActSetConnStatusFlags]"
      "\<forall>e. out \<noteq> Returns (rem, Some e)"
  | (final_callback) cbs c' res where
      "setConnStatusFlags (run_session rn) c = Inr c'" "w_conn w = c'"
      "w_trace w = trace @ goroutines_started @ map (\<lambda>(res, m). ActCallback res m) cbs
                     @ replicate (producer_closes rn isNode2) ActClose
                     @ [ActClose, ActSetConnStatusFlags, ActCallback res mf]"
proof -
  from doQuery_pipeline_shape [OF assms] show thesis
  proof (elim exE conjE disjE)
    fix cbs tail
    assume tr: "w_trace w = trace @ goroutines_started @ map (\<lambda>(res, m). ActCallback res m) cbs
                         @ replicate (producer_closes rn isNode2) ActClose @ tail"
      and "tail = []" "\<forall>x. out \<noteq> Returns x" "w_conn w = c"
    then show thesis by (intro stuck [of cbs tail]) simp_all
  next
    fix cbs tail
    assume tr: "w_trace w = trace @ goroutines_started @ map (\<lambda>(res, m). ActCallback res m) cbs
                         @ replicate (producer_closes rn isNode2) ActClose @ tail"
      and "tail = [ActClose]" "\<forall>x. out \<noteq> Returns x" "w_conn w = c"
    then show thesis by (intro stuck [of cbs tail]) simp_all
  next
    fix cbs tail err
    assume tr: "w_trace w = trace @ goroutines_started @ map (\<lambda>(res, m). ActCallback res m) cbs
                         @ replicate (producer_closes rn isNode2) ActClose @ tail"
      and "tail = [ActClose] @ deferred_EndQuery (Some err) ctxnn"
      "out = Returns (rem, Some err)" "w_conn w = c"
    then show thesis by (intro wait_failed [of cbs err]) simp_all
  next
    fix cbs tail err
    assume tr: "w_trace w = trace @ goroutines_started @ map (\<lambda>(res, m). ActCallback res m) cbs
                         @ replicate (producer_closes rn isNode2) ActClose @ tail"
      and "setConnStatusFlags (run_session rn) c = Inl err" "tail = [ActClose, ActEndQuery]"
      "out = Returns (rem, Some err)" "w_conn w = c"
    then show thesis by (intro flags_failed [of err cbs]) simp_all
  next
    fix cbs tail c'
    assume tr: "w_trace w = trace @ goroutines_started @ map (\<lambda>(res, m). ActCallback res m) cbs
                         @ replicate (producer_closes rn isNode2) ActClose @ tail"
      and "setConnStatusFlags (run_session rn) c = Inr c'" "w_conn w = c'"
      "tail = [ActClose, ActSetConnStatusFlags]"
      "\<forall>e. out = Returns (rem, Some e) \<longrightarrow>
                   (\<exists>res. tail = [ActClose, ActSetConnStatusFlags, ActCallback res mf])"
    then show thesis by (intro flags_set [of c' cbs]) simp_all
  next
    fix cbs tail c' res
    assume tr: "w_trace w = trace @ goroutines_started @ map (\<lambda>(res, m). ActCallback res m) cbs
                         @ replicate (producer_closes rn isNode2) ActClose @ tail"
      and "setConnStatusFlags (run_session rn) c = Inr c'" "w_conn w = c'"
      "tail = [ActClose, ActSetConnStatusFlags, ActCallback res mf]"
    then show thesis by (intro final_callback [of c' cbs res]) simp_all
  qed
qed

lemma doQuery_cases:
  assumes "doQuery h c q mode bs cb rn = (out, w)"
  shows "(w_trace w = [] \<and> w_conn w = c \<and> (\<exists>rem err. out = Returns (rem, Some err)))
       \<or> (\<exists>err rem. run_QueryNode rn = Inl err \<and> out = Returns (rem, Some err) \<and> w_conn w = c \<and>
              w_trace w = [ActBeginQuery, ActQueryNodeWithBindings]
                            @ deferred_EndQuery (Some err) (fst (run_BeginQuery rn)))
       \<or> (\<exists>schema isNode2 rem mf. run_QueryNode rn = Inr (schema, isNode2) \<and>
              doQuery_pipeline h rn c cb rem mf schema isNode2 (fst (run_BeginQuery rn))
                [ActBeginQuery, ActQueryNodeWithBindings] = (out, w))"
  using assms unfolding doQuery_def Let_def
  by (auto split: option.splits prod.splits sum.splits if_splits)

lemma count_list_callbacks:
  "a \<in> {ActBeginQuery, ActEndQuery, ActClose, ActSetConnStatusFlags} \<Longrightarrow>
   count_list (map (\<lambda>(res, m). ActCallback res m) cbs) a = 0"
  by (induction cbs) auto

lemma callbacks_no_flags:
  "ActSetConnStatusFlags \<notin> (\<lambda>(res, m). ActCallback res m) ` S"
  by auto

lemma count_list_replicate_Close:
  "count_list (replicate k ActClose) a = (if a = ActClose then k else 0)"
  by (induction k) auto

lemma producer_closes_le: "producer_closes rn isNode2 \<le> 1"
  using producer_rows2_closes [of "run_Close rn 0" "run_producer rn" "[]"]
  by (simp add: producer_closes_def)

lemmas trace_counts =
  count_list_callbacks count_list_replicate_Close goroutines_started_def
  deferred_EndQuery_def callbacks_no_flags

lemma doQuery_counts:
  assumes "doQuery h c q mode bs cb rn = (Returns (rem, err), w)"
      and "ActBeginQuery \<in> set (w_trace w)"
  shows "count_list (w_trace w) ActBeginQuery = 1
     \<and> count_list (w_trace w) ActEndQuery \<le> 1
     \<and> (ActSetConnStatusFlags \<in> set (w_trace w) \<longrightarrow> count_list (w_trace w) ActEndQuery = 0)
     \<and> (err = None \<longrightarrow> ActSetConnStatusFlags \<in> set (w_trace w))
     \<and> (ActSetConnStatusFlags \<notin> set (w_trace w) \<and> fst (run_BeginQuery rn) \<longrightarrow>
          err \<noteq> None \<and> count_list (w_trace w) ActEndQuery = 1)
     \<and> (\<forall>e. run_QueryNode rn = Inl e \<longrightarrow> count_list (w_trace w) ActClose = 0)
     \<and> (\<forall>s. run_QueryNode rn = Inr (s, False) \<longrightarrow> count_list (w_trace w) ActClose = 1)
     \<and> (\<forall>s. run_QueryNode rn = Inr (s, True) \<longrightarrow>
          count_list (w_trace w) ActClose = 1 + producer_closes rn True \<and>
          producer_closes rn True \<le> 1)"
proof -
  let ?G = "count_list (w_trace w) ActBeginQuery = 1
     \<and> count_list (w_trace w) ActEndQuery \<le> 1
     \<and> (ActSetConnStatusFlags \<in> set (w_trace w) \<longrightarrow> count_list (w_trace w) ActEndQuery = 0)
     \<and> (err = None \<longrightarrow> ActSetConnStatusFlags \<in> set (w_trace w))
     \<and> (ActSetConnStatusFlags \<notin> set (w_trace w) \<and> fst (run_BeginQuery rn) \<longrightarrow>
          err \<noteq> None \<and> count_list (w_trace w) ActEndQuery = 1)
     \<and> (\<forall>e. run_QueryNode rn = Inl e \<longrightarrow> count_list (w_trace w) ActClose = 0)
     \<and> (\<forall>s. run_QueryNode rn = Inr (s, False) \<longrightarrow> count_list (w_trace w) ActClose = 1)
     \<and> (\<forall>s. run_QueryNode rn = Inr (s, True) \<longrightarrow>
          count_list (w_trace w) ActClose = 1 + producer_closes rn True \<and>
          producer_closes rn True \<le> 1)"
  from doQuery_cases [OF assms(1)] show ?thesis
  proof (elim disjE exE conjE)
    assume "w_trace w = []"
    with assms(2) show ?thesis by simp
  next
    fix e rem'
    assume h: "run_QueryNode rn = Inl e" "Returns (rem, err) = Returns (rem', Some e)"
      "w_trace w = [ActBeginQuery, ActQueryNodeWithBindings]
                            @ deferred_EndQuery (Some e) (fst (run_BeginQuery rn))"
    then show ?thesis by (simp add: deferred_EndQuery_def)
  next
    fix schema isNode2 rem' mf
    assume q: "run_QueryNode rn = Inr (schema, isNode2)"
      and p: "doQuery_pipeline h rn c cb rem' mf schema isNode2 (fst (run_BeginQuery rn))
                [ActBeginQuery, ActQueryNodeWithBindings] = (Returns (rem, err), w)"
    have le: "producer_closes rn isNode2 \<le> 1" by (rule producer_closes_le)
    have k0: "producer_closes rn False = 0" by (simp add: producer_closes_def)
    from p show ?thesis
    proof (cases rule: doQuery_pipeline_cases)
      case (stuck cbs tail)
      then show ?thesis by simp
    next
      case (wait_failed cbs e)
      then show ?thesis using q le k0
        by (cases isNode2; cases "fst (run_BeginQuery rn)") (simp_all add: trace_counts)
    next
      case (flags_failed cbs e)
      then show ?thesis using q le k0
        by (cases isNode2) (simp_all add: trace_counts)
    next
      case (flags_set cbs c')
      then show ?thesis using q le k0
        by (cases isNode2; cases err) (simp_all add: trace_counts)
    next
      case (final_callback cbs c' res)
      then show ?thesis using q le k0
        by (cases isNode2) (simp_all add: trace_counts)
    qed
  qed
qed

lemma producer_rows2_closes_end:
  assumes "\<forall>st \<in> set pre. st = SeesDone \<or> (\<exists>row. st = CallsNext (NextRow row) True)"
      and "r = NextEOF \<or> (\<exists>e. r = NextErr e)"
  shows "snd (snd (producer_rows2 ce (pre @ CallsNext r ok # post) sent)) = 1"
  using assms
proof (induction pre arbitrary: sent)
  case Nil
  then show ?case by auto
next
  case (Cons a pre)
  then show ?case by (cases a) auto
qed

lemma producer_rows2_closes_cancelled:
  assumes "\<forall>st \<in> set pre. st = SeesDone \<or> (\<exists>row. st = CallsNext (NextRow row) True)"
  shows "snd (snd (producer_rows2 ce (pre @ CallsNext (NextRow row) False # post) sent)) = 0"
  using assms
proof (induction pre arbitrary: sent)
  case Nil
  then show ?case by simp
next
  case (Cons a pre)
  then show ?case by (cases a) auto
qed

text \<open>
  C2, amended.  For every execution of \<^verbatim>\<open>doQuery\<close> that registers the query with
  \<open>BeginQuery\<close> and returns: \<open>BeginQuery\<close> is invoked exactly once; \<^verbatim>\<open>doQuery\<close>
  invokes \<open>EndQuery\<close> at most once, not at all once the status flags have been set (a
  successful execution, or an error of the final callback), and exactly once when it
  returns before that with the error of \<open>QueryNodeWithBindings\<close>, of the pipeline or of
  \<open>setConnStatusFlags\<close> and \<open>BeginQuery\<close> returned a non-nil context.  When
  \<open>QueryNodeWithBindings\<close> fails there is no iterator and no \<open>Close\<close>; the \<open>Close\<close>
  of a plain row iterator is invoked exactly once (by the joiner goroutine); a Node2
  iterator is closed by the joiner and, when \<open>Next2\<close> ends the stream or fails, once
  more by the producer: its \<open>Close\<close> is invoked exactly twice when the first call of
  \<open>Next2\<close> that is not followed by a successful send returns the end of the stream or
  an error, and exactly once when the producer stops because the context is done while it
  sends a row.
\<close>

theorem doQuery_EndQuery_Close_counts:
  assumes "doQuery h c q mode bs cb rn = (Returns (rem, err), w)"
      and "ActBeginQuery \<in> set (w_trace w)"
  shows "count_list (w_trace w) ActBeginQuery = 1
     \<and> count_list (w_trace w) ActEndQuery \<le> 1
     \<and> (ActSetConnStatusFlags \<in> set (w_trace w) \<longrightarrow> count_list (w_trace w) ActEndQuery = 0)
     \<and> (err = None \<longrightarrow> ActSetConnStatusFlags \<in> set (w_trace w))
     \<and> (ActSetConnStatusFlags \<notin> set (w_trace w) \<and> fst (run_BeginQuery rn) \<longrightarrow>
          err \<noteq> None \<and> count_list (w_trace w) ActEndQuery = 1)
     \<and> (\<forall>e. run_QueryNode rn = Inl e \<longrightarrow> count_list (w_trace w) ActClose = 0)
     \<and> (\<forall>s. run_QueryNode rn = Inr (s, False) \<longrightarrow> count_list (w_trace w) ActClose = 1)
     \<and> (\<forall>s. run_QueryNode rn = Inr (s, True) \<longrightarrow>
          count_list (w_trace w) ActClose = 1 + producer_closes rn True \<and>
          producer_closes rn True \<le> 1)
     \<and> (\<forall>s pre r ok post.
          run_QueryNode rn = Inr (s, True) \<and>
          run_producer rn = pre @ CallsNext r ok # post \<and>
          (\<forall>st \<in> set pre. st = SeesDone \<or> (\<exists>row. st = CallsNext (NextRow row) True)) \<and>
          (r = NextEOF \<or> (\<exists>e. r = NextErr e)) \<longrightarrow>
          count_list (w_trace w) ActClose = 2)
     \<and> (\<forall>s pre row post.
          run_QueryNode rn = Inr (s, True) \<and>
          run_producer rn = pre @ CallsNext (NextRow row) False # post \<and>
          (\<forall>st \<in> set pre. st = SeesDone \<or> (\<exists>row. st = CallsNext (NextRow row) True)) \<longrightarrow>
          count_list (w_trace w) ActClose = 1)"
proof -
  note A = doQuery_counts [OF assms]
  note node2 = A [THEN conjunct2, THEN conjunct2, THEN conjunct2, THEN conjunct2,
      THEN conjunct2, THEN conjunct2, THEN conjunct2, rule_format, THEN conjunct1]
  have ends: "count_list (w_trace w) ActClose = 2"
    if "run_QueryNode rn = Inr (s, True) \<and>
        run_producer rn = pre @ CallsNext r ok # post \<and>
        (\<forall>st \<in> set pre. st = SeesDone \<or> (\<exists>row. st = CallsNext (NextRow row) True)) \<and>
        (r = NextEOF \<or> (\<exists>e. r = NextErr e))" for s pre r ok post
  proof -
    from that have q: "run_QueryNode rn = Inr (s, True)"
      and p: "run_producer rn = pre @ CallsNext r ok # post"
      and pre: "\<forall>st \<in> set pre. st = SeesDone \<or> (\<exists>row. st = CallsNext (NextRow row) True)"
      and r: "r = NextEOF \<or> (\<exists>e. r = NextErr e)"
      by simp_all
    have "producer_closes rn True = 1"
      unfolding producer_closes_def p
      using producer_rows2_closes_end [OF pre r] by simp
    with node2 [OF q] show ?thesis by simp
  qed
  have cancelled: "count_list (w_trace w) ActClose = 1"
    if "run_QueryNode rn = Inr (s, True) \<and>
        run_producer rn = pre @ CallsNext (NextRow row) False # post \<and>
        (\<forall>st \<in> set pre. st = SeesDone \<or> (\<exists>row. st = CallsNext (NextRow row) True))"
    for s pre row post
  proof -
    from that have q: "run_QueryNode rn = Inr (s, True)"
      and p: "run_producer rn = pre @ CallsNext (NextRow row) False # post"
      and pre: "\<forall>st \<in> set pre. st = SeesDone \<or> (\<exists>row. st = CallsNext (NextRow row) True)"
      by simp_all
    have "producer_closes rn True = 0"
      unfolding producer_closes_def p
      using producer_rows2_closes_cancelled [OF pre] by simp
    with node2 [OF q] show ?thesis by simp
  qed
  from A ends cancelled show ?thesis by blast
qed

theorem doQuery_EndQuery_Close_counts_witness:
  "doQuery demo_handler demo_conn ''SELECT 1'' MultiStmtModeOff [] demo_callback engine_fails_run
     = (Returns ([], Some (ErrExternal ''table not found'')),
        \<lparr>w_conn = demo_conn,
         w_trace = [ActBeginQuery, ActQueryNodeWithBindings, ActEndQuery]\<rparr>)
   \<and> count_list [ActBeginQuery, ActQueryNodeWithBindings, ActEndQuery] ActEndQuery = 1
   \<and> count_list [ActBeginQuery, ActQueryNodeWithBindings, ActEndQuery] ActClose = 0
   \<and> fst (doQuery demo_handler demo_conn ''SELECT 1'' MultiStmtModeOff [] demo_callback row2_run)
       = Returns ([], None)
   \<and> count_list (w_trace (snd (doQuery demo_handler demo_conn ''SELECT 1'' MultiStmtModeOff []
         demo_callback row2_run))) ActClose = 2
   \<and> fst (doQuery demo_handler demo_conn ''SELECT 1'' MultiStmtModeOff [] demo_callback
         row2_error_run) = Returns ([], Some (ErrExternal ''disk error''))
   \<and> count_list (w_trace (snd (doQuery demo_handler demo_conn ''SELECT 1'' MultiStmtModeOff []
         demo_callback row2_error_run))) ActClose = 2
   \<and> count_list (w_trace (snd (doQuery demo_handler demo_conn ''SELECT 1'' MultiStmtModeOff []
         demo_callback row2_error_run))) ActEndQuery = 1
   \<and> fst (doQuery demo_handler demo_conn ''SELECT 1'' MultiStmtModeOff [] demo_callback
         row2_cancelled_run) = Returns ([], None)
   \<and> count_list (w_trace (snd (doQuery demo_handler demo_conn ''SELECT 1'' MultiStmtModeOff []
         demo_callback row2_cancelled_run))) ActClose = 1"
proof -
  have run: "doQuery demo_handler demo_conn ''SELECT 1'' MultiStmtModeOff [] demo_callback
        engine_fails_run
     = (Returns ([], Some (ErrExternal ''table not found'')),
        \<lparr>w_conn = demo_conn,
         w_trace = [ActBeginQuery, ActQueryNodeWithBindings, ActEndQuery]\<rparr>)"
    by code_simp
  have b: "ActBeginQuery \<in> set (w_trace \<lparr>w_conn = demo_conn,
         w_trace = [ActBeginQuery, ActQueryNodeWithBindings, ActEndQuery]\<rparr>)"
    by simp
  have q: "run_QueryNode engine_fails_run = Inl (ErrExternal ''table not found'')"
    by (simp add: engine_fails_run_def smooth_run_def)
  have f: "fst (run_BeginQuery engine_fails_run)"
    by (simp add: engine_fails_run_def smooth_run_def)
  note T = doQuery_EndQuery_Close_counts [OF run b]
  have e1: "count_list [ActBeginQuery, ActQueryNodeWithBindings, ActEndQuery] ActEndQuery = 1"
    using T [THEN conjunct2, THEN conjunct2, THEN conjunct2, THEN conjunct2, THEN conjunct1] f
    by simp
  have e2: "count_list [ActBeginQuery, ActQueryNodeWithBindings, ActEndQuery] ActClose = 0"
    using T [THEN conjunct2, THEN conjunct2, THEN conjunct2, THEN conjunct2, THEN conjunct2,
             THEN conjunct1, rule_format, OF q]
    by simp

  let ?eof = "doQuery demo_handler demo_conn ''SELECT 1'' MultiStmtModeOff [] demo_callback row2_run"
  have eof_out: "fst ?eof = Returns ([], None)"
    by code_simp
  have eof_run: "?eof = (Returns ([], None), snd ?eof)"
    using eof_out by (simp add: prod_eq_iff)
  have eof_b: "ActBeginQuery \<in> set (w_trace (snd ?eof))"
    by code_simp
  have eof_h: "run_QueryNode row2_run = Inr (demo_schema, True) \<and>
      run_producer row2_run = [] @ CallsNext NextEOF True # [] \<and>
      (\<forall>st \<in> set []. st = SeesDone \<or> (\<exists>row. st = CallsNext (NextRow row) True)) \<and>
      (NextEOF = NextEOF \<or> (\<exists>e. NextEOF = NextErr e))"
    by (simp add: row2_run_def smooth_run_def)
  note eof_c = doQuery_EndQuery_Close_counts [OF eof_run eof_b, THEN conjunct2, THEN conjunct2,
      THEN conjunct2, THEN conjunct2, THEN conjunct2, THEN conjunct2, THEN conjunct2,
      THEN conjunct2, THEN conjunct1, rule_format, OF eof_h]

  let ?err = "doQuery demo_handler demo_conn ''SELECT 1'' MultiStmtModeOff [] demo_callback
         row2_error_run"
  have err_out: "fst ?err = Returns ([], Some (ErrExternal ''disk error''))"
    by code_simp
  have err_run: "?err = (Returns ([], Some (ErrExternal ''disk error'')), snd ?err)"
    using err_out by (simp add: prod_eq_iff)
  have err_b: "ActBeginQuery \<in> set (w_trace (snd ?err))"
    by code_simp
  have err_nf: "ActSetConnStatusFlags \<notin> set (w_trace (snd ?err)) \<and>
      fst (run_BeginQuery row2_error_run)"
    by code_simp
  have err_h: "run_QueryNode row2_error_run = Inr (demo_schema, True) \<and>
      run_producer row2_error_run
        = [] @ CallsNext (NextErr (ErrExternal ''disk error'')) True # [] \<and>
      (\<forall>st \<in> set []. st = SeesDone \<or> (\<exists>row. st = CallsNext (NextRow row) True)) \<and>
      (NextErr (ErrExternal ''disk error'') = NextEOF \<or>
       (\<exists>e. NextErr (ErrExternal ''disk error'') = NextErr e))"
    by (simp add: row2_error_run_def smooth_run_def)
  note err_T = doQuery_EndQuery_Close_counts [OF err_run err_b]
  note err_c = err_T [THEN conjunct2, THEN conjunct2,
      THEN conjunct2, THEN conjunct2, THEN conjunct2, THEN conjunct2, THEN conjunct2,
      THEN conjunct2, THEN conjunct1, rule_format, OF err_h]
  note err_e = err_T [THEN conjunct2, THEN conjunct2, THEN conjunct2, THEN conjunct2,
      THEN conjunct1, rule_format, OF err_nf, THEN conjunct2]

  let ?can = "doQuery demo_handler demo_conn ''SELECT 1'' MultiStmtModeOff [] demo_callback
         row2_cancelled_run"
  have can_out: "fst ?can = Returns ([], None)"
    by code_simp
  have can_run: "?can = (Returns ([], None), snd ?can)"
    using can_out by (simp add: prod_eq_iff)
  have can_b: "ActBeginQuery \<in> set (w_trace (snd ?can))"
    by code_simp
  have can_h: "run_QueryNode row2_cancelled_run = Inr (demo_schema, True) \<and>
      run_producer row2_cancelled_run = [] @ CallsNext (NextRow [IntV 1]) False # [] \<and>
      (\<forall>st \<in> set []. st = SeesDone \<or> (\<exists>row. st = CallsNext (NextRow row) True))"
    by (simp add: row2_cancelled_run_def smooth_run_def)
  note can_c = doQuery_EndQuery_Close_counts [OF can_run can_b, THEN conjunct2, THEN conjunct2,
      THEN conjunct2, THEN conjunct2, THEN conjunct2, THEN conjunct2, THEN conjunct2,
      THEN conjunct2, THEN conjunct2, rule_format, OF can_h]

  show ?thesis
    using run e1 e2 eof_out eof_c err_out err_c err_e can_out can_c
    by (intro conjI)
qed



text \<open>
  C4, evaluated where the claim fails.  Without a read timeout (\<open>readTimeout = 0\<close>) the
  timer fires before a row arrives.  The \<open>select\<close> has received the timer's value, so
  \<open>Stop\<close> reports false and the receive \<^verbatim>\<open><-timer.C\<close> that follows finds nothing:
  the consumer blocks there, never resets the timer and never sees the cancellation that
  comes next, and \<^verbatim>\<open>doQuery\<close> does not return.  With a read timeout the same firing
  ends the consumer with RowTimeout.
\<close>

theorem consumer_timer_fires_without_timeout:
  "fst (consumer (demo_cenv 0) (init_pipe 0) [EvTimer, EvDone]) = Blocks
   \<and> t_armed (var_timer (snd (consumer (demo_cenv 0) (init_pipe 0) [EvTimer, EvDone])))
       = [1 * Minute]
   \<and> fst (doQuery demo_handler demo_conn ''SELECT 1'' MultiStmtModeOff [] demo_callback slow_run)
       = Blocks
   \<and> fst (consumer (demo_cenv 5) (init_pipe 5) [EvTimer, EvDone]) = Returns (Some ErrRowTimeout)"
  by code_simp

text \<open>
  C5, evaluated where the claim fails.  An OkResult row followed by a data row: the
  batch built from the OkResult gets the data row appended and its \<open>RowsAffected\<close>
  incremented, nothing panics, and the final callback is handed the mixed result.  In
  the other order the consumer panics.
\<close>

theorem okresult_then_row_is_delivered:
  "doQuery demo_handler demo_conn ''INSERT'' MultiStmtModeOff [] demo_callback
       (smooth_run [demo_ok_row, [IntV 1]])
     = (Returns ([], None),
        \<lparr>w_conn = demo_conn\<lparr>StatusFlags := 0x400B\<rparr>,
         w_trace = [ActBeginQuery, ActQueryNodeWithBindings, ActGo Producer, ActGo Poller,
                    ActGo Consumer, ActGo Joiner, ActClose, ActSetConnStatusFlags,
                    ActCallback (Some \<lparr>Fields = [], RowsAffected = 8, InsertID = 42, Info = [],
                                        Rows = [[\<lparr>vtyp = sqltypes_Int64, vval = ''1''\<rparr>]]\<rparr>) False]\<rparr>)
   \<and> fst (consumer (demo_cenv 0) (init_pipe 0) [EvRow [IntV 1], EvRow demo_ok_row, EvClosed])
       = Panics ''Got OkResult mixed with RowResult''"
  by code_simp

text \<open>
  C7, evaluated where the claim fails.  \<open>BeginQuery\<close> returns an error; the error is
  overwritten by the result of \<open>QueryNodeWithBindings\<close>, the four goroutines are
  started, and \<^verbatim>\<open>doQuery\<close> returns without error.
\<close>

theorem goroutines_start_after_failed_BeginQuery:
  "run_BeginQuery begin_fails_run = (True, Some (ErrExternal ''pid already in use''))
   \<and> fst (doQuery demo_handler demo_conn ''SELECT 1'' MultiStmtModeOff [] demo_callback
            begin_fails_run) = Returns ([], None)
   \<and> take 6 (w_trace (snd (doQuery demo_handler demo_conn ''SELECT 1'' MultiStmtModeOff []
                              demo_callback begin_fails_run)))
       = [ActBeginQuery, ActQueryNodeWithBindings, ActGo Producer, ActGo Poller,
          ActGo Consumer, ActGo Joiner]"
  by code_simp

text \<open>
  C2 as stated fails: in a successful execution \<^verbatim>\<open>doQuery\<close> does not invoke
  \<open>EndQuery\<close> at all, and on a Node2 iterator \<open>Close\<close> is invoked twice, by the
  producer at the end of the stream and by the joiner.
\<close>

theorem EndQuery_Close_not_exactly_once:
  "fst (doQuery demo_handler demo_conn ''SELECT 1'' MultiStmtModeOff [] demo_callback
          (smooth_run [[IntV 1]])) = Returns ([], None)
   \<and> count_list (w_trace (snd (doQuery demo_handler demo_conn ''SELECT 1'' MultiStmtModeOff []
                                 demo_callback (smooth_run [[IntV 1]])))) ActBeginQuery = 1
   \<and> count_list (w_trace (snd (doQuery demo_handler demo_conn ''SELECT 1'' MultiStmtModeOff []
                                 demo_callback (smooth_run [[IntV 1]])))) ActEndQuery = 0
   \<and> fst (doQuery demo_handler demo_conn ''SELECT 1'' MultiStmtModeOff [] demo_callback
          row2_run) = Returns ([], None)
   \<and> count_list (w_trace (snd (doQuery demo_handler demo_conn ''SELECT 1'' MultiStmtModeOff []
                                 demo_callback row2_run))) ActClose = 2"
  by code_simp

lemma of_nat_rowsBatch:
  assumes "n \<le> 128"
  shows "((of_nat n :: 64 word) = rowsBatch) = (n = 128)"
proof
  assume "(of_nat n :: 64 word) = rowsBatch"
  then have "unat (of_nat n :: 64 word) = unat (128 :: 64 word)"
    by (simp add: rowsBatch_def)
  moreover have "unat (of_nat n :: 64 word) = n"
    using assms by (simp add: unat_of_nat)
  ultimately show "n = 128" by simp
next
  assume "n = 128"
  then show "(of_nat n :: 64 word) = rowsBatch" by (simp add: rowsBatch_def)
qed

lemma consumer_None:
  assumes "var_r st = None"
  shows "consumer ce st evs = consumer ce (st\<lparr>var_r := Some (new_result ce)\<rparr>) evs"
proof -
  have "consumer ce (st\<lparr>var_r := Some (new_result ce)\<rparr>) evs = consumer ce st evs"
    by (subst consumer.simps, subst (3) consumer.simps) (simp add: assms)
  then show ?thesis by simp
qed

lemma consumer_flush:
  assumes "var_r st = Some cur" "RowsAffected cur = rowsBatch"
    "c_callback ce (length (calls st)) (Some cur) (c_more ce) = None"
  shows "consumer ce st evs =
         consumer ce (st\<lparr>calls := calls st @ [(Some cur, c_more ce)], var_r := None,
                        processedAtLeastOneBatch := True\<rparr>) evs"
  by (subst consumer.simps) (simp add: assms Let_def)

lemma consumer_closed:
  assumes "var_r st = Some cur" "RowsAffected cur \<noteq> rowsBatch"
  shows "consumer ce st (EvClosed # rest) = (Returns None, st)"
proof -
  have "st\<lparr>var_r := Some cur\<rparr> = st" using assms(1) by (cases st) simp
  then show ?thesis by (subst consumer.simps) (simp add: assms Let_def)
qed

lemma consumer_row:
  assumes "var_r st = Some cur" "RowsAffected cur \<noteq> rowsBatch"
    "c_isNode2 ce \<or> \<not> IsOkResult row"
    "(if c_isNode2 ce then row2ToSQL (c_wire ce) (c_schema ce) row
      else rowToSQL (c_wire ce) (c_schema ce) row) = Ok outputRow"
    "t_active (var_timer st)"
  shows "consumer ce st (EvRow row # rest) =
         consumer ce (st\<lparr>var_r := Some (cur\<lparr>Rows := Rows cur @ [outputRow],
                                             RowsAffected := RowsAffected cur + 1\<rparr>),
                        var_timer := timer_Reset (waitTime (c_readTimeout ce))
                                       ((var_timer st)\<lparr>t_active := False\<rparr>)\<rparr>) rest"
  using assms
  by (subst consumer.simps)
     (auto simp: Let_def stop_drain_reset_def timer_Stop_def)

lemma batch_append:
  "(batch F acc)\<lparr>Rows := Rows (batch F acc) @ [x],
                  RowsAffected := RowsAffected (batch F acc) + 1\<rparr> = batch F (acc @ [x])"
  by (simp add: batch_def)

lemma new_result_batch: "new_result ce = batch (schemaToFields (c_wire ce) (c_schema ce)) []"
  by (simp add: new_result_def batch_def)

lemma batch_full: "length acc \<le> 128 \<Longrightarrow> (RowsAffected (batch F acc) = rowsBatch) = (length acc = 128)"
  by (simp add: batch_def of_nat_rowsBatch)

lemma consumer_spools:
  assumes cb: "\<And>n res m. c_callback ce n res m = None"
    and F: "F = schemaToFields (c_wire ce) (c_schema ce)"
  shows "list_all2 (\<lambda>row out. (c_isNode2 ce \<or> \<not> IsOkResult row) \<and>
                      (if c_isNode2 ce then row2ToSQL (c_wire ce) (c_schema ce) row
                       else rowToSQL (c_wire ce) (c_schema ce) row) = Ok out) rows outs \<Longrightarrow>
     var_r st = Some (batch F acc) \<Longrightarrow> length acc \<le> 128 \<Longrightarrow> t_active (var_timer st) \<Longrightarrow>
     \<exists>st'. consumer ce st (map EvRow rows @ EvClosed # rest) = (Returns None, st') \<and>
           calls st' = calls st @ map (\<lambda>ch. (Some (batch F ch), c_more ce)) (fst (spool acc outs)) \<and>
           var_r st' = Some (batch F (snd (spool acc outs))) \<and>
           processedAtLeastOneBatch st' =
             (processedAtLeastOneBatch st \<or> fst (spool acc outs) \<noteq> [])"
proof (induction rows outs arbitrary: st acc rule: list_all2_induct)
  case Nil
  show ?case
  proof (cases "length acc = 128")
    case False
    with Nil have nf: "RowsAffected (batch F acc) \<noteq> rowsBatch" by (simp add: batch_full)
    from consumer_closed [OF Nil(1) nf, of ce rest] False Nil(1) show ?thesis by simp
  next
    case True
    with Nil have full: "RowsAffected (batch F acc) = rowsBatch" by (simp add: batch_full)
    let ?st1 = "st\<lparr>calls := calls st @ [(Some (batch F acc), c_more ce)], var_r := None,
                   processedAtLeastOneBatch := True\<rparr>"
    let ?st2 = "?st1\<lparr>var_r := Some (new_result ce)\<rparr>"
    have "consumer ce st (EvClosed # rest) = consumer ce ?st1 (EvClosed # rest)"
      by (rule consumer_flush [OF Nil(1) full cb])
    also have "\<dots> = consumer ce ?st2 (EvClosed # rest)"
      by (rule consumer_None) simp
    also have "\<dots> = (Returns None, ?st2)"
      by (rule consumer_closed [of _ "new_result ce"]) (simp_all add: new_result_def rowsBatch_def)
    finally show ?thesis using True by (simp add: new_result_batch F)
  qed
next
  case (Cons row rows out outs)
  from Cons.hyps(1) have ok: "c_isNode2 ce \<or> \<not> IsOkResult row"
    and conv: "(if c_isNode2 ce then row2ToSQL (c_wire ce) (c_schema ce) row
                else rowToSQL (c_wire ce) (c_schema ce) row) = Ok out"
    by simp_all
  let ?reset = "\<lambda>s. timer_Reset (waitTime (c_readTimeout ce)) ((var_timer s)\<lparr>t_active := False\<rparr>)"
  show ?case
  proof (cases "length acc = 128")
    case False
    with Cons.prems have nf: "RowsAffected (batch F acc) \<noteq> rowsBatch" by (simp add: batch_full)
    let ?st1 = "st\<lparr>var_r := Some (batch F (acc @ [out])), var_timer := ?reset st\<rparr>"
    have step: "consumer ce st (EvRow row # map EvRow rows @ EvClosed # rest) =
                consumer ce ?st1 (map EvRow rows @ EvClosed # rest)"
      using consumer_row [OF Cons.prems(1) nf ok conv Cons.prems(3), of "map EvRow rows @ EvClosed # rest"]
      by (simp add: batch_append)
    have "\<exists>st'. consumer ce ?st1 (map EvRow rows @ EvClosed # rest) = (Returns None, st') \<and>
           calls st' = calls ?st1 @ map (\<lambda>ch. (Some (batch F ch), c_more ce)) (fst (spool (acc @ [out]) outs)) \<and>
           var_r st' = Some (batch F (snd (spool (acc @ [out]) outs))) \<and>
           processedAtLeastOneBatch st' =
             (processedAtLeastOneBatch ?st1 \<or> fst (spool (acc @ [out]) outs) \<noteq> [])"
      using False Cons.prems(2) by (intro Cons.IH) (simp_all add: timer_Reset_def)
    then show ?thesis using step False by simp
  next
    case True
    with Cons.prems have full: "RowsAffected (batch F acc) = rowsBatch" by (simp add: batch_full)
    let ?st1 = "st\<lparr>calls := calls st @ [(Some (batch F acc), c_more ce)], var_r := None,
                   processedAtLeastOneBatch := True\<rparr>"
    let ?st2 = "?st1\<lparr>var_r := Some (new_result ce)\<rparr>"
    let ?st3 = "?st2\<lparr>var_r := Some (batch F [out]), var_timer := ?reset ?st2\<rparr>"
    let ?evs = "map EvRow rows @ EvClosed # rest"
    have "consumer ce st (EvRow row # ?evs) = consumer ce ?st1 (EvRow row # ?evs)"
      by (rule consumer_flush [OF Cons.prems(1) full cb])
    also have "\<dots> = consumer ce ?st2 (EvRow row # ?evs)"
      by (rule consumer_None) simp
    also have "\<dots> = consumer ce ?st3 ?evs"
    proof -
      have r2: "var_r ?st2 = Some (batch F [])" by (simp add: new_result_batch F)
      have nf: "RowsAffected (batch F []) \<noteq> rowsBatch" by (simp add: batch_def rowsBatch_def)
      have act: "t_active (var_timer ?st2)" using Cons.prems(3) by simp
      from consumer_row [OF r2 nf ok conv act, of ?evs] show ?thesis
        by (simp add: batch_append)
    qed
    finally have step: "consumer ce st (EvRow row # ?evs) = consumer ce ?st3 ?evs" .
    have "\<exists>st'. consumer ce ?st3 ?evs = (Returns None, st') \<and>
           calls st' = calls ?st3 @ map (\<lambda>ch. (Some (batch F ch), c_more ce)) (fst (spool [out] outs)) \<and>
           var_r st' = Some (batch F (snd (spool [out] outs))) \<and>
           processedAtLeastOneBatch st' =
             (processedAtLeastOneBatch ?st3 \<or> fst (spool [out] outs) \<noteq> [])"
      by (intro Cons.IH) (simp_all add: timer_Reset_def)
    then show ?thesis using step True by (auto split: prod.splits)
  qed
qed

lemma spool_concat: "concat (fst (spool acc xs)) @ snd (spool acc xs) = acc @ xs"
  by (induction xs arbitrary: acc) (simp_all add: case_prod_beta)

lemma spool_full: "length acc \<le> 128 \<Longrightarrow> b \<in> set (fst (spool acc xs)) \<Longrightarrow> length b = 128"
proof (induction xs arbitrary: acc)
  case Nil
  then show ?case by (simp split: if_splits)
next
  case (Cons a xs)
  show ?case
  proof (cases "length acc = 128")
    case True
    with Cons.prems(2) have "b = acc \<or> b \<in> set (fst (spool [a] xs))"
      by (simp add: case_prod_beta)
    then show ?thesis using True Cons.IH [of "[a]"] by auto
  next
    case False
    with Cons.prems have "length (acc @ [a]) \<le> 128" "b \<in> set (fst (spool (acc @ [a]) xs))"
      by simp_all
    then show ?thesis by (rule Cons.IH)
  qed
qed

lemma spool_left: "length acc \<le> 128 \<Longrightarrow> length (snd (spool acc xs)) < 128"
  by (induction xs arbitrary: acc) (auto simp: case_prod_beta split: if_splits)

lemma length_concat_uniform:
  "\<forall>b \<in> set bs. length b = n \<Longrightarrow> length (concat bs) = n * length bs"
  by (induction bs) simp_all

lemma delivered_props:
  fixes outs :: "'a list"
  defines "N \<equiv> length outs"
  shows "concat (delivered outs) = outs"
    and "length (delivered outs) = (if N = 0 then 1 else (N + 127) div 128)"
    and "\<forall>i. Suc i < length (delivered outs) \<longrightarrow> length (delivered outs ! i) = 128"
    and "length (last (delivered outs)) =
           (if N = 0 then 0 else if N mod 128 = 0 then 128 else N mod 128)"
proof -
  obtain fl lo where sp: "spool [] outs = (fl, lo)" by (cases "spool [] outs")
  have cat: "concat fl @ lo = outs" using spool_concat [of "[]" outs] sp by simp
  have full: "\<forall>b \<in> set fl. length b = 128" using spool_full [of "[]" _ outs] sp by auto
  have lo: "length lo < 128" using spool_left [of "[]" outs] sp by simp
  have N: "N = 128 * length fl + length lo"
    using cat length_concat_uniform [OF full] by (auto simp: N_def dest: arg_cong [where f = length])
  have D: "delivered outs = fl @ (if lo = [] \<and> fl \<noteq> [] then [] else [lo])"
    by (simp add: delivered_def sp)
  show "concat (delivered outs) = outs" using cat by (auto simp: D)
  have k: "N div 128 = length fl" and l: "N mod 128 = length lo" using N lo by simp_all
  show "length (delivered outs) = (if N = 0 then 1 else (N + 127) div 128)"
  proof (cases "lo = []")
    case True
    then show ?thesis using N by (auto simp: D)
  next
    case False
    then have pos: "Suc 0 \<le> length lo" by (cases lo) simp_all
    have "(128 * length fl + length lo + 127) div 128 = length fl + 1"
    proof (rule div_nat_eqI)
      show "128 * (length fl + 1) \<le> 128 * length fl + length lo + 127"
        using pos by simp
      show "128 * length fl + length lo + 127 < 128 * Suc (length fl + 1)"
        using lo by simp
    qed
    with False show ?thesis using N by (simp add: D)
  qed
  show "\<forall>i. Suc i < length (delivered outs) \<longrightarrow> length (delivered outs ! i) = 128"
  proof (intro allI impI)
    fix i
    assume "Suc i < length (delivered outs)"
    then have "i < length fl" by (auto simp: D split: if_splits)
    then have "delivered outs ! i = fl ! i" "fl ! i \<in> set fl" by (simp_all add: D nth_append)
    with full show "length (delivered outs ! i) = 128" by simp
  qed
  show "length (last (delivered outs)) =
           (if N = 0 then 0 else if N mod 128 = 0 then 128 else N mod 128)"
  proof (cases "lo = [] \<and> fl \<noteq> []")
    case True
    then have "last (delivered outs) = last fl" "last fl \<in> set fl" by (simp_all add: D)
    with full have "length (last (delivered outs)) = 128" by simp
    with True show ?thesis using N l by simp
  next
    case False
    then have "delivered outs = fl @ [lo]" by (simp only: D if_False)
    then have "last (delivered outs) = lo" by simp
    with False show ?thesis using N l by auto
  qed
qed

lemma producer_rows_all_sent:
  "producer_rows (map (\<lambda>row. CallsNext (NextRow row) True) rows @ CallsNext NextEOF b # steps) sent
     = (Returns None, sent @ rows)"
  by (induction rows arbitrary: sent) simp_all

lemma producer_rows2_all_sent:
  "producer_rows2 ce (map (\<lambda>row. CallsNext (NextRow row) True) rows @ CallsNext NextEOF b # steps) sent
     = (Returns ce, sent @ rows, 1)"
  by (induction rows arbitrary: sent) simp_all

lemma consumer_events_all_received:
  "consumer_events (replicate (length rows + 1) Recv @ choices) rows True
     = map EvRow rows @ EvClosed # consumer_events choices [] True"
  by (induction rows) simp_all

lemma eg_Wait_no_error: "eg_Wait finished (\<lambda>g. None) = None"
proof -
  have "List.map_filter (\<lambda>g :: goroutine. None :: error option) xs = []" for xs
    by (induction xs) simp_all
  then show ?thesis by (simp add: eg_Wait_def)
qed

lemma callbacks_of_append: "callbacks_of (xs @ ys) = callbacks_of xs @ callbacks_of ys"
  by (simp add: callbacks_of_def List.map_filter_def)

lemma callbacks_of_callbacks: "callbacks_of (map (\<lambda>(res, m). ActCallback res m) cbs) = cbs"
  by (induction cbs) (auto simp: callbacks_of_def)

lemma callbacks_of_Cons:
  "callbacks_of (a # xs) =
     (case a of ActCallback res m \<Rightarrow> [(res, m)] | _ \<Rightarrow> []) @ callbacks_of xs"
  by (cases a) (simp_all add: callbacks_of_def)

lemma callbacks_of_Nil: "callbacks_of [] = []"
  by (simp add: callbacks_of_def)

lemma callbacks_of_replicate_Close: "callbacks_of (replicate k ActClose) = []"
  by (induction k) (simp_all add: callbacks_of_Cons callbacks_of_Nil)

lemma batch_empty:
  assumes "length rows < 128"
  shows "(RowsAffected (batch F rows) = 0) = (rows = [])"
proof
  assume "RowsAffected (batch F rows) = 0"
  then have "unat (of_nat (length rows) :: 64 word) = unat (0 :: 64 word)"
    by (simp add: batch_def)
  moreover have "unat (of_nat (length rows) :: 64 word) = length rows"
    using assms by (simp add: unat_of_nat)
  ultimately show "rows = []" by simp
next
  assume "rows = []"
  then show "RowsAffected (batch F rows) = 0" by (simp add: batch_def)
qed

text \<open>
  C1 as stated fails: a finite iterator and a callback that never fails do not suffice.
  With a read timeout, an iterator that takes longer than the timeout for its only row
  makes the consumer return RowTimeout, and the callback is not invoked at all; and when
  the iterator yields no row and its \<open>Close\<close> fails, \<^verbatim>\<open>doQuery\<close> returns that error
  without the one callback of the empty batch.
\<close>

theorem callback_not_invoked:
  "run_producer timeout_run = [CallsNext (NextRow [IntV 1]) True, SeesDone]
   \<and> fst (doQuery timeout_handler demo_conn ''SELECT 1'' MultiStmtModeOff [] demo_callback
          timeout_run) = Returns ([], Some ErrRowTimeout)
   \<and> callbacks_of (w_trace (snd (doQuery timeout_handler demo_conn ''SELECT 1''
          MultiStmtModeOff [] demo_callback timeout_run))) = []
   \<and> run_producer close_fails_run = [CallsNext NextEOF True]
   \<and> fst (doQuery demo_handler demo_conn ''SELECT 1'' MultiStmtModeOff [] demo_callback
          close_fails_run) = Returns ([], Some (ErrExternal ''close failed''))
   \<and> callbacks_of (w_trace (snd (doQuery demo_handler demo_conn ''SELECT 1''
          MultiStmtModeOff [] demo_callback close_fails_run))) = []"
  by code_simp

text \<open>
  C1, amended.  An execution of \<^verbatim>\<open>doQuery\<close> in which the iterator yields N rows and
  then the end of the stream, every row is sent and received (no timer fires and nothing
  is cancelled in between), no row is an OkResult on the Row path, every row converts to
  wire format, the callback never returns an error, and the poller, \<open>Close\<close> and the
  status flags raise no error: \<^verbatim>\<open>doQuery\<close> returns without error, and the callback
  is invoked, in order, with batches that hold the converted rows in the order of the
  iterator, each with the fields built from the schema and the \<open>more\<close> flag.  For N > 0
  there are \<open>\<lceil>N / 128\<rceil>\<close> batches, each of 128 rows except the last, which has
  \<open>N mod 128\<close> rows (128 when 128 divides N); for N = 0 there is exactly one batch,
  without rows.
\<close>

theorem doQuery_batches:
  assumes ctx: "run_NewContext rn = None"
    and parse: "(if mode = MultiStmtModeOn then run_ParseOne rn else (False, [], []))
                  = (parsed, prequery, remainder)"
           "parsed \<or> run_Parse rn = None"
    and binds: "bindings = [] \<or> (\<exists>e. bindingsToExprs (run_bind rn) bindings = Inr e)"
    and engine: "run_QueryNode rn = Inr (schema, isNode2)"
    and iter: "run_producer rn =
                 map (\<lambda>row. CallsNext (NextRow row) True) rows @ CallsNext NextEOF sent_eof # steps"
    and recv: "run_consumer rn = replicate (length rows + 1) Recv @ choices"
    and conv: "list_all2 (\<lambda>row out. (isNode2 \<or> \<not> IsOkResult row) \<and>
                   (if isNode2 then row2ToSQL (run_wire rn) schema row
                    else rowToSQL (run_wire rn) schema row) = Ok out) rows outs"
    and cb: "\<forall>n res m. callback n res m = None"
    and poll: "fst (pollForClosedConnection (run_sock rn) c (run_poller rn)) = Returns None"
    and close: "\<forall>k. run_Close rn k = None"
    and flags: "setConnStatusFlags (run_session rn) c = Inr c'"
  shows "\<exists>w. doQuery h c query mode bindings callback rn = (Returns (remainder, None), w) \<and>
           callbacks_of (w_trace w) =
             map (\<lambda>b. (Some (batch (schemaToFields (run_wire rn) schema) b), remainder \<noteq> []))
                 (delivered outs) \<and>
           concat (delivered outs) = outs \<and>
           length (delivered outs) = (if length rows = 0 then 1 else (length rows + 127) div 128) \<and>
           (\<forall>i. Suc i < length (delivered outs) \<longrightarrow> length (delivered outs ! i) = 128) \<and>
           length (last (delivered outs)) =
             (if length rows = 0 then 0
              else if length rows mod 128 = 0 then 128 else length rows mod 128)"
proof -
  define mf where "mf = (remainder \<noteq> [])"
  define F where "F = schemaToFields (run_wire rn) schema"
  define ce where "ce = \<lparr>c_readTimeout = readTimeout h, c_schema = schema, c_isNode2 = isNode2,
                c_more = mf, c_callback = callback, c_wire = run_wire rn\<rparr>"
  define st0 where "st0 = \<lparr>var_r = None, processedAtLeastOneBatch = False,
                         var_timer = NewTimer (waitTime (readTimeout h)), calls = []\<rparr>"
  define evs where "evs = map EvRow rows @ EvClosed # consumer_events choices [] True"
  define k :: nat where "k = (if isNode2 then 1 else 0)"
  have len: "length outs = length rows" using conv by (simp add: list_all2_lengthD)
  obtain fl lo where sp: "spool [] outs = (fl, lo)" by (cases "spool [] outs")
  have lo: "length lo < 128" using spool_left [of "[]" outs] sp by simp
  \<comment> \<open>the consumer\<close>
  have sel: "c_wire ce = run_wire rn" "c_schema ce = schema" "c_isNode2 ce = isNode2"
    by (simp_all add: ce_def)
  have conv': "list_all2 (\<lambda>row out. (c_isNode2 ce \<or> \<not> IsOkResult row) \<and>
                      (if c_isNode2 ce then row2ToSQL (c_wire ce) (c_schema ce) row
                       else rowToSQL (c_wire ce) (c_schema ce) row) = Ok out) rows outs"
    unfolding sel by (rule conv)
  have F': "F = schemaToFields (c_wire ce) (c_schema ce)" by (simp add: F_def ce_def)
  have cb': "\<And>n res m. c_callback ce n res m = None" using cb by (simp add: ce_def)
  let ?st1 = "st0\<lparr>var_r := Some (new_result ce)\<rparr>"
  have "\<exists>st'. consumer ce ?st1 (map EvRow rows @ EvClosed # consumer_events choices [] True)
                 = (Returns None, st') \<and>
           calls st' = calls ?st1 @ map (\<lambda>ch. (Some (batch F ch), c_more ce)) (fst (spool [] outs)) \<and>
           var_r st' = Some (batch F (snd (spool [] outs))) \<and>
           processedAtLeastOneBatch st' =
             (processedAtLeastOneBatch ?st1 \<or> fst (spool [] outs) \<noteq> [])"
    by (rule consumer_spools [OF cb' F' conv'])
       (simp_all add: new_result_batch F' st0_def NewTimer_def)
  then obtain st' where
    run: "consumer ce ?st1 evs = (Returns None, st')" and
    calls: "calls st' = map (\<lambda>ch. (Some (batch F ch), mf)) fl" and
    left: "var_r st' = Some (batch F lo)" and
    proc: "processedAtLeastOneBatch st' = (fl \<noteq> [])"
    by (auto simp: evs_def sp st0_def ce_def)
  have cons: "consumer ce st0 evs = (Returns None, st')"
    using consumer_None [of st0 ce evs] run by (simp add: st0_def)
  \<comment> \<open>the producer and the channel\<close>
  have prod: "(if isNode2 then producer_rows2 (run_Close rn 0) (run_producer rn) []
             else (case producer_rows (run_producer rn) [] of (out, sent) \<Rightarrow> (out, sent, 0)))
           = (Returns None, rows, k)"
    using close by (simp add: iter producer_rows_all_sent producer_rows2_all_sent k_def)
  have chan: "consumer_events (run_consumer rn) rows True = evs"
    unfolding recv evs_def by (rule consumer_events_all_received)
  \<comment> \<open>the end of \<^verbatim>\<open>doQuery\<close>\<close>
  let ?trace2 = "[ActBeginQuery, ActQueryNodeWithBindings]
                   @ [ActGo Producer, ActGo Poller, ActGo Consumer, ActGo Joiner]
                   @ map (\<lambda>(res, m). ActCallback res m) (calls st')
                   @ replicate k ActClose @ [ActClose]"
  define last_call where "last_call =
      (if lo = [] \<and> fl \<noteq> [] then [] else [ActCallback (Some (batch F lo)) mf])"
  have fin: "doQuery_finish rn c callback remainder mf st' ?trace2 =
      (Returns (remainder, None),
       \<lparr>w_conn = c', w_trace = ?trace2 @ [ActSetConnStatusFlags] @ last_call\<rparr>)"
  proof (cases "lo = [] \<and> fl \<noteq> []")
    case True
    have e0: "RowsAffected (batch F []) = 0" by (simp add: batch_def)
    from True show ?thesis
      by (simp add: doQuery_finish_def flags left proc e0 deferred_EndQuery_def last_call_def)
  next
    case False
    have e: "(RowsAffected (batch F lo) = 0) = (lo = [])" by (rule batch_empty [OF lo])
    from False show ?thesis
      by (simp add: doQuery_finish_def flags left proc e deferred_EndQuery_def last_call_def
            Let_def cb [rule_format])
  qed
  have pipe: "doQuery_pipeline h rn c callback remainder mf schema isNode2
                (fst (run_BeginQuery rn)) [ActBeginQuery, ActQueryNodeWithBindings] =
      (Returns (remainder, None),
       \<lparr>w_conn = c', w_trace = ?trace2 @ [ActSetConnStatusFlags] @ last_call\<rparr>)"
  proof -
    have g: "case_goroutine None None None None = (\<lambda>g. None :: error option)"
      by (rule ext) (simp split: goroutine.splits)
    show ?thesis
      unfolding doQuery_pipeline_def prod
      using fin close
      by (simp add: ce_def [symmetric] st0_def [symmetric] chan cons poll g eg_Wait_no_error
            Let_def)
  qed
  have dq: "doQuery h c query mode bindings callback rn =
      (Returns (remainder, None),
       \<lparr>w_conn = c', w_trace = ?trace2 @ [ActSetConnStatusFlags] @ last_call\<rparr>)"
    using ctx parse binds engine pipe
    by (auto simp: doQuery_def mf_def split: prod.splits)
  have cbs: "callbacks_of (?trace2 @ [ActSetConnStatusFlags] @ last_call) =
      map (\<lambda>b. (Some (batch F b), mf)) (delivered outs)"
  proof -
    have "callbacks_of (?trace2 @ [ActSetConnStatusFlags] @ last_call) =
        calls st' @ (if lo = [] \<and> fl \<noteq> [] then [] else [(Some (batch F lo), mf)])"
      by (simp add: callbacks_of_append callbacks_of_Cons callbacks_of_Nil
            callbacks_of_callbacks callbacks_of_replicate_Close last_call_def)
    then show ?thesis by (simp add: calls delivered_def sp)
  qed
  note P = delivered_props [of outs, unfolded len]
  from dq cbs P show ?thesis
    by (simp add: F_def mf_def)
qed

lemma list_all2_replicate_same:
  "P x y \<Longrightarrow> list_all2 P (replicate n x) (replicate n y)"
  by (simp add: list_all2_conv_all_nth)

theorem doQuery_batches_witness:
  "fst (doQuery demo_handler demo_conn ''SELECT 1'' MultiStmtModeOff [] demo_callback
         (smooth_run s1_rows)) = Returns ([], None)
   \<and> map (\<lambda>(res, m). (map_option (\<lambda>r. length (Rows r)) res, m))
         (callbacks_of (w_trace (snd (doQuery demo_handler demo_conn ''SELECT 1''
            MultiStmtModeOff [] demo_callback (smooth_run s1_rows)))))
       = [(Some 128, False), (Some 128, False), (Some 44, False)]"
proof -
  let ?rn = "smooth_run s1_rows"
  let ?o = "[\<lparr>vtyp = sqltypes_Int64, vval = ''1''\<rparr>] :: wire_row"
  have ctx: "run_NewContext ?rn = None" by (simp add: smooth_run_def)
  have parse: "(if MultiStmtModeOff = MultiStmtModeOn then run_ParseOne ?rn else (False, [], []))
                  = (False, [], [])"
              "False \<or> run_Parse ?rn = None"
    by (simp_all add: smooth_run_def)
  have binds: "([] :: (string \<times> bind_variable) list) = [] \<or>
      (\<exists>e. bindingsToExprs (run_bind ?rn) [] = Inr e)" by simp
  have engine: "run_QueryNode ?rn = Inr (demo_schema, False)" by (simp add: smooth_run_def)
  have iter: "run_producer ?rn =
      map (\<lambda>row. CallsNext (NextRow row) True) s1_rows @ CallsNext NextEOF True # []"
    by (simp add: smooth_run_def)
  have recv: "run_consumer ?rn = replicate (length s1_rows + 1) Recv @ []"
    by (simp add: smooth_run_def)
  have one: "(False \<or> \<not> IsOkResult [IntV 1]) \<and>
      (if False then row2ToSQL demo_wire_env demo_schema [IntV 1]
       else rowToSQL demo_wire_env demo_schema [IntV 1]) = Ok ?o"
    by code_simp
  have conv: "list_all2 (\<lambda>row out. (False \<or> \<not> IsOkResult row) \<and>
                   (if False then row2ToSQL (run_wire ?rn) demo_schema row
                    else rowToSQL (run_wire ?rn) demo_schema row) = Ok out)
                s1_rows (replicate 300 ?o)"
    unfolding s1_rows_def
    by (rule list_all2_replicate_same) (use one in \<open>simp add: smooth_run_def\<close>)
  have cb: "\<forall>n res m. demo_callback n res m = None" by (simp add: demo_callback_def)
  have poll: "fst (pollForClosedConnection (run_sock ?rn) demo_conn (run_poller ?rn))
      = Returns None"
    by (simp add: smooth_run_def pollForClosedConnection_def maybeGetTCPConn_def demo_conn_def
          demo_sock_env_def)
  have close: "\<forall>k. run_Close ?rn k = None" by (simp add: smooth_run_def)
  have flags: "setConnStatusFlags (run_session ?rn) demo_conn
      = Inr (demo_conn\<lparr>StatusFlags := 0x400B\<rparr>)"
    unfolding smooth_run_def by code_simp
  from doQuery_batches [where h = demo_handler and query = "''SELECT 1''",
      OF ctx parse binds engine iter recv conv cb poll close flags]
  obtain w where
    dq: "doQuery demo_handler demo_conn ''SELECT 1'' MultiStmtModeOff [] demo_callback ?rn
           = (Returns ([], None), w)"
    and cbs: "callbacks_of (w_trace w) =
             map (\<lambda>b. (Some (batch (schemaToFields (run_wire ?rn) demo_schema) b), [] \<noteq> ([] :: string)))
                 (delivered (replicate 300 ?o))"
    by blast
  have lens: "map length (delivered (replicate 300 ?o)) = [128, 128, 44]"
    by code_simp
  have "map (\<lambda>(res, m). (map_option (\<lambda>r. length (Rows r)) res, m)) (callbacks_of (w_trace w))
      = map (\<lambda>n. (Some n, False)) (map length (delivered (replicate 300 ?o)))"
    unfolding cbs by (simp add: batch_def comp_def)
  then show ?thesis unfolding lens using dq by simp
qed


end
